theory Spec2Isabelle
  imports Main "HOL-Library.Char_ord" "HOL-Library.List_Lexorder" "HOL-Library.Sublist"
begin

section \<open>The store\<close>

text \<open>
  The six tools of \<^verbatim>\<open>src/tools.py\<close> work on an SQLite database with the tables
  users, wallets, products, orders, order_items and ledger. A table is modelled as the
  list of its rows in insertion (rowid) order, a row as a record of its columns.
  \<^verbatim>\<open>SELECT ... WHERE k = ?\<close> followed by \<^verbatim>\<open>fetchone()\<close> is the first matching row
  (\<^const>\<open>find\<close>), \<^verbatim>\<open>UPDATE ... WHERE k = ?\<close> rewrites every matching row, and
  \<^verbatim>\<open>INSERT\<close> appends a row. Python's integers are unbounded, so integer columns are
  \<^typ>\<open>int\<close>; text columns are \<^typ>\<open>string\<close> (ASCII).
\<close>

record user_row =
  u_user_id :: string
  u_name :: string

record wallet_row =
  w_user_id :: string
  w_balance_cents :: int

text \<open>A row of products; the pydantic model \<^verbatim>\<open>Product\<close> has the same four fields.\<close>

record product =
  product_id :: string
  name :: string
  price_cents :: int
  inventory :: int

record order_row =
  o_order_id :: string
  o_user_id :: string
  o_created_at :: string
  o_status :: string
  o_total_cents :: int

record order_item_row =
  oi_order_id :: string
  oi_product_id :: string
  oi_quantity :: int
  oi_unit_price_cents :: int

text \<open>
  The column \<^verbatim>\<open>metadata_json\<close> holds the JSON text of a dictionary. The code under
  study writes \<^verbatim>\<open>{"source": ...}\<close> for a top-up and
  \<^verbatim>\<open>{"order_id": ..., "product_id": ..., "quantity": ...}\<close> for a purchase (the seed
  script writes \<^verbatim>\<open>{"order_id": ...}\<close>), and reads back only \<^verbatim>\<open>order_id\<close>. The
  column is modelled by the parsed dictionary, one optional field per key.
\<close>

record metadata =
  m_order_id :: "string option"
  m_product_id :: "string option"
  m_quantity :: "int option"
  m_source :: "string option"

record ledger_row =
  l_tx_id :: string
  l_user_id :: string
  l_kind :: string
  l_amount_cents :: int
  l_created_at :: string
  l_client_request_id :: string
  l_metadata_json :: metadata

record db =
  users :: "user_row list"
  wallets :: "wallet_row list"
  products :: "product list"
  orders :: "order_row list"
  order_items :: "order_item_row list"
  ledger :: "ledger_row list"

subsection \<open>Errors\<close>

text \<open>
  Every exception the tools can raise, named after the error kinds of the specification
  where it lists one. In the source the first eight are \<^verbatim>\<open>ValueError\<close>s told apart by
  their message, the next two are \<^verbatim>\<open>RuntimeError\<close>s, \<open>OrderRowMissing\<close> is the
  \<^verbatim>\<open>TypeError\<close> of subscripting \<^verbatim>\<open>None\<close>, and \<open>IntegrityError\<close> is
  \<^verbatim>\<open>sqlite3.IntegrityError\<close>.
\<close>

datatype error =
    InvalidAmount
  | InvalidQuantity
  | InvalidLimit
  | UnknownUser
  | UnknownProduct
  | WalletNotFound
  | InsufficientInventory
  | InsufficientFunds
  | MissingOrderIdMetadata
  | OrderMissingItems
  | OrderRowMissing
  | IntegrityError

subsection \<open>Connections and transactions\<close>

text \<open>
  A connection sees the committed database and its own uncommitted writes.
  \<^verbatim>\<open>commit()\<close> makes the writes durable, \<^verbatim>\<open>rollback()\<close> drops them, and
  \<^verbatim>\<open>close()\<close> leaves the committed database behind. The model is sequential: one
  connection at a time, so \<^verbatim>\<open>BEGIN IMMEDIATE\<close>, which takes the write lock, is not
  a step of its own.
\<close>

record conn =
  committed :: db
  view :: db

definition connect :: "db \<Rightarrow> conn" where
  "connect d = \<lparr>committed = d, view = d\<rparr>"

definition commit :: "conn \<Rightarrow> conn" where
  "commit c = c\<lparr>committed := view c\<rparr>"

definition rollback :: "conn \<Rightarrow> conn" where
  "rollback c = c\<lparr>view := committed c\<rparr>"

definition close :: "conn \<Rightarrow> db" where
  "close c = committed c"

subsection \<open>Generated values\<close>

text \<open>
  \<^verbatim>\<open>uuid4().hex\<close> and the clock are inputs of a call: the hexadecimal digits drawn for
  the order id and for the transaction id, and the timestamp.
\<close>

record env =
  uuid_order :: string
  uuid_tx :: string
  utc_now_iso :: string

definition new_tx_id :: "env \<Rightarrow> string" where
  "new_tx_id e = ''tx_'' @ uuid_tx e"

definition new_order_id :: "env \<Rightarrow> string" where
  "new_order_id e = ''o_'' @ take 10 (uuid_order e)"

subsection \<open>Internal helpers\<close>

definition ensure_user_exists :: "conn \<Rightarrow> string \<Rightarrow> error + unit" where
  "ensure_user_exists c user_id =
     (case find (\<lambda>u. u_user_id u = user_id) (users (view c)) of
        None \<Rightarrow> Inl UnknownUser
      | Some _ \<Rightarrow> Inr ())"

definition get_wallet_balance :: "conn \<Rightarrow> string \<Rightarrow> error + int" where
  "get_wallet_balance c user_id =
     (case find (\<lambda>w. w_user_id w = user_id) (wallets (view c)) of
        None \<Rightarrow> Inl WalletNotFound
      | Some row \<Rightarrow> Inr (w_balance_cents row))"

definition get_ledger_by_client_request :: "conn \<Rightarrow> string \<Rightarrow> ledger_row option" where
  "get_ledger_by_client_request c client_request_id =
     find (\<lambda>l. l_client_request_id l = client_request_id) (ledger (view c))"

subsection \<open>Write statements\<close>

definition update_wallet :: "conn \<Rightarrow> int \<Rightarrow> string \<Rightarrow> conn" where
  "update_wallet c bal user_id =
     c\<lparr>view := (view c)\<lparr>wallets :=
        map (\<lambda>w. if w_user_id w = user_id then w\<lparr>w_balance_cents := bal\<rparr> else w)
          (wallets (view c))\<rparr>\<rparr>"

definition update_inventory :: "conn \<Rightarrow> int \<Rightarrow> string \<Rightarrow> conn" where
  "update_inventory c new_inventory pid =
     c\<lparr>view := (view c)\<lparr>products :=
        map (\<lambda>p. if product_id p = pid then p\<lparr>inventory := new_inventory\<rparr> else p)
          (products (view c))\<rparr>\<rparr>"

text \<open>
  The schema file \<^verbatim>\<open>schema.sql\<close> is not among the sources. The specification
  gives the keys of the tables: \<^verbatim>\<open>orders(order_id PK, user_id FK)\<close>,
  \<^verbatim>\<open>order_items(order_id FK, product_id FK)\<close> and
  \<^verbatim>\<open>ledger(tx_id PK, user_id FK, client_request_id UNIQUE)\<close>; \<^verbatim>\<open>connect\<close> switches
  foreign keys on. An \<^verbatim>\<open>INSERT\<close> that breaks a key raises
  \<^verbatim>\<open>sqlite3.IntegrityError\<close> and writes nothing.
\<close>

text \<open>Modelled from the spec: the keys of orders (primary key order_id, foreign key
  user_id), which \<^verbatim>\<open>schema.sql\<close> would declare.\<close>

definition insert_order :: "conn \<Rightarrow> order_row \<Rightarrow> error + conn" where
  "insert_order c row =
     (if o_order_id row \<in> set (map o_order_id (orders (view c)))
         \<or> o_user_id row \<notin> set (map u_user_id (users (view c)))
      then Inl IntegrityError
      else Inr (c\<lparr>view := (view c)\<lparr>orders := orders (view c) @ [row]\<rparr>\<rparr>))"

text \<open>Modelled from the spec: the keys of order_items (foreign keys order_id and
  product_id), which \<^verbatim>\<open>schema.sql\<close> would declare.\<close>

definition insert_order_item :: "conn \<Rightarrow> order_item_row \<Rightarrow> error + conn" where
  "insert_order_item c row =
     (if oi_order_id row \<notin> set (map o_order_id (orders (view c)))
         \<or> oi_product_id row \<notin> set (map product_id (products (view c)))
      then Inl IntegrityError
      else Inr (c\<lparr>view := (view c)\<lparr>order_items := order_items (view c) @ [row]\<rparr>\<rparr>))"

text \<open>Modelled from the spec: the keys of ledger (primary key tx_id, unique
  client_request_id, foreign key user_id), which \<^verbatim>\<open>schema.sql\<close> would declare.\<close>

definition insert_ledger :: "conn \<Rightarrow> ledger_row \<Rightarrow> error + conn" where
  "insert_ledger c row =
     (if l_tx_id row \<in> set (map l_tx_id (ledger (view c)))
         \<or> l_client_request_id row \<in> set (map l_client_request_id (ledger (view c)))
         \<or> l_user_id row \<notin> set (map u_user_id (users (view c)))
      then Inl IntegrityError
      else Inr (c\<lparr>view := (view c)\<lparr>ledger := ledger (view c) @ [row]\<rparr>\<rparr>))"

section \<open>Tool 2: add_funds\<close>

record add_funds_response =
  af_user_id :: string
  af_added_cents :: int
  af_new_balance_cents :: int
  af_tx_id :: string

text \<open>
  The body of the \<^verbatim>\<open>try\<close> block: the connection as the block leaves it, and either
  the exception raised or the response returned.
\<close>

definition add_funds_try ::
  "env \<Rightarrow> conn \<Rightarrow> string \<Rightarrow> int \<Rightarrow> string \<Rightarrow> string \<Rightarrow> conn \<times> (error + add_funds_response)" where
  "add_funds_try e c user_id amount_cents source client_request_id =
     (case ensure_user_exists c user_id of
        Inl err \<Rightarrow> (c, Inl err)
      | Inr _ \<Rightarrow>
     (case get_ledger_by_client_request c client_request_id of
        Some existing \<Rightarrow>
          (case get_wallet_balance c user_id of
             Inl err \<Rightarrow> (c, Inl err)
           | Inr bal \<Rightarrow>
               (c, Inr \<lparr>af_user_id = user_id,
                        af_added_cents = l_amount_cents existing,
                        af_new_balance_cents = bal,
                        af_tx_id = l_tx_id existing\<rparr>))
      | None \<Rightarrow>
          (let tx_id = new_tx_id e;
               now = utc_now_iso e
           in case get_wallet_balance c user_id of
                Inl err \<Rightarrow> (c, Inl err)
              | Inr bal_before \<Rightarrow>
                  (let bal_after = bal_before + amount_cents;
                       c1 = update_wallet c bal_after user_id
                   in case insert_ledger c1
                        \<lparr>l_tx_id = tx_id, l_user_id = user_id, l_kind = ''TOPUP'',
                         l_amount_cents = amount_cents, l_created_at = now,
                         l_client_request_id = client_request_id,
                         l_metadata_json =
                           \<lparr>m_order_id = None, m_product_id = None, m_quantity = None,
                            m_source = Some source\<rparr>\<rparr> of
                        Inl err \<Rightarrow> (c1, Inl err)
                      | Inr c2 \<Rightarrow>
                          (commit c2,
                           Inr \<lparr>af_user_id = user_id,
                                af_added_cents = amount_cents,
                                af_new_balance_cents = bal_after,
                                af_tx_id = tx_id\<rparr>)))))"

text \<open>
  The whole tool: the amount is checked before the connection is opened; an exception
  in the block rolls back, and the connection is closed in every case.
\<close>

definition add_funds ::
  "env \<Rightarrow> db \<Rightarrow> string \<Rightarrow> int \<Rightarrow> string \<Rightarrow> string \<Rightarrow> db \<times> (error + add_funds_response)" where
  "add_funds e d user_id amount_cents source client_request_id =
     (if amount_cents \<le> 0 then (d, Inl InvalidAmount)
      else case add_funds_try e (connect d) user_id amount_cents source client_request_id of
             (c, Inl err) \<Rightarrow> (close (rollback c), Inl err)
           | (c, Inr r) \<Rightarrow> (close c, Inr r))"

section \<open>Tool 5: purchase\<close>

record purchase_response =
  pr_user_id :: string
  pr_order_id :: string
  pr_product_id :: string
  pr_quantity :: int
  pr_unit_price_cents :: int
  pr_total_cents :: int
  pr_new_balance_cents :: int

text \<open>
  \<^verbatim>\<open>FROM order_items oi JOIN products p ON p.product_id = oi.product_id WHERE
  oi.order_id = ?\<close>: the item rows of the order, each paired with every product row of
  its product id, in the order of the item rows (SQL leaves the order open).
\<close>

definition join_items :: "db \<Rightarrow> string \<Rightarrow> (order_item_row \<times> product) list" where
  "join_items d order_id =
     concat (map (\<lambda>oi. map (\<lambda>p. (oi, p))
                            (filter (\<lambda>p. product_id p = oi_product_id oi) (products d)))
                 (filter (\<lambda>oi. oi_order_id oi = order_id) (order_items d)))"

text \<open>
  The idempotent branch: the response is rebuilt from the ledger row found, the order it
  names, the first item of that order and the balance read now. \<^verbatim>\<open>not order_id\<close>
  holds for a missing key and for the empty string.
\<close>

definition purchase_replay :: "conn \<Rightarrow> string \<Rightarrow> ledger_row \<Rightarrow> error + purchase_response" where
  "purchase_replay c user_id existing =
     (case m_order_id (l_metadata_json existing) of
        None \<Rightarrow> Inl MissingOrderIdMetadata
      | Some order_id \<Rightarrow>
          if order_id = [] then Inl MissingOrderIdMetadata
          else
     (case get_wallet_balance c user_id of
        Inl err \<Rightarrow> Inl err
      | Inr bal \<Rightarrow>
     (case join_items (view c) order_id of
        [] \<Rightarrow> Inl OrderMissingItems
      | (item, p) # _ \<Rightarrow>
     (case find (\<lambda>row. o_order_id row = order_id) (orders (view c)) of
        None \<Rightarrow> Inl OrderRowMissing
      | Some row \<Rightarrow>
          Inr \<lparr>pr_user_id = user_id,
               pr_order_id = order_id,
               pr_product_id = oi_product_id item,
               pr_quantity = oi_quantity item,
               pr_unit_price_cents = oi_unit_price_cents item,
               pr_total_cents = o_total_cents row,
               pr_new_balance_cents = bal\<rparr>))))"

text \<open>The normal purchase path, from \<^verbatim>\<open>BEGIN IMMEDIATE\<close> to the \<^verbatim>\<open>return\<close>.\<close>

definition purchase_normal ::
  "env \<Rightarrow> conn \<Rightarrow> string \<Rightarrow> string \<Rightarrow> int \<Rightarrow> string \<Rightarrow> conn \<times> (error + purchase_response)" where
  "purchase_normal e c user_id pid quantity client_request_id =
     (case find (\<lambda>p. product_id p = pid) (products (view c)) of
        None \<Rightarrow> (c, Inl UnknownProduct)
      | Some prod_row \<Rightarrow>
          (let price = price_cents prod_row;
               stock = inventory prod_row
           in if stock < quantity then (c, Inl InsufficientInventory)
              else
          (let total_cents = price * quantity
           in case get_wallet_balance c user_id of
                Inl err \<Rightarrow> (c, Inl err)
              | Inr bal_before \<Rightarrow>
                  if bal_before < total_cents then (c, Inl InsufficientFunds)
                  else
          (let bal_after = bal_before - total_cents;
               new_inventory = stock - quantity;
               c1 = update_wallet c bal_after user_id;
               c2 = update_inventory c1 new_inventory pid;
               order_id = new_order_id e;
               now = utc_now_iso e
           in case insert_order c2
                \<lparr>o_order_id = order_id, o_user_id = user_id, o_created_at = now,
                 o_status = ''PLACED'', o_total_cents = total_cents\<rparr> of
                Inl err \<Rightarrow> (c2, Inl err)
              | Inr c3 \<Rightarrow>
          (case insert_order_item c3
                \<lparr>oi_order_id = order_id, oi_product_id = pid, oi_quantity = quantity,
                 oi_unit_price_cents = price\<rparr> of
             Inl err \<Rightarrow> (c3, Inl err)
           | Inr c4 \<Rightarrow>
          (let tx_id = new_tx_id e
           in case insert_ledger c4
                \<lparr>l_tx_id = tx_id, l_user_id = user_id, l_kind = ''PURCHASE'',
                 l_amount_cents = - total_cents, l_created_at = now,
                 l_client_request_id = client_request_id,
                 l_metadata_json =
                   \<lparr>m_order_id = Some order_id, m_product_id = Some pid,
                    m_quantity = Some quantity, m_source = None\<rparr>\<rparr> of
                Inl err \<Rightarrow> (c4, Inl err)
              | Inr c5 \<Rightarrow>
                  (commit c5,
                   Inr \<lparr>pr_user_id = user_id,
                        pr_order_id = order_id,
                        pr_product_id = pid,
                        pr_quantity = quantity,
                        pr_unit_price_cents = price,
                        pr_total_cents = total_cents,
                        pr_new_balance_cents = bal_after\<rparr>)))))))"

text \<open>The body of the \<^verbatim>\<open>try\<close> block.\<close>

definition purchase_try ::
  "env \<Rightarrow> conn \<Rightarrow> string \<Rightarrow> string \<Rightarrow> int \<Rightarrow> string \<Rightarrow> conn \<times> (error + purchase_response)" where
  "purchase_try e c user_id pid quantity client_request_id =
     (case ensure_user_exists c user_id of
        Inl err \<Rightarrow> (c, Inl err)
      | Inr _ \<Rightarrow>
     (case get_ledger_by_client_request c client_request_id of
        Some existing \<Rightarrow> (c, purchase_replay c user_id existing)
      | None \<Rightarrow> purchase_normal e c user_id pid quantity client_request_id))"

definition purchase ::
  "env \<Rightarrow> db \<Rightarrow> string \<Rightarrow> string \<Rightarrow> int \<Rightarrow> string \<Rightarrow> db \<times> (error + purchase_response)" where
  "purchase e d user_id pid quantity client_request_id =
     (if quantity \<le> 0 then (d, Inl InvalidQuantity)
      else case purchase_try e (connect d) user_id pid quantity client_request_id of
             (c, Inl err) \<Rightarrow> (close (rollback c), Inl err)
           | (c, Inr r) \<Rightarrow> (close c, Inr r))"

section \<open>Tools 1, 4 and 6: get_balance, get_product, get_orders\<close>

record balance_response =
  br_user_id :: string
  br_balance_cents :: int

definition get_balance_try :: "conn \<Rightarrow> string \<Rightarrow> conn \<times> (error + balance_response)" where
  "get_balance_try c user_id =
     (case ensure_user_exists c user_id of
        Inl err \<Rightarrow> (c, Inl err)
      | Inr _ \<Rightarrow>
     (case get_wallet_balance c user_id of
        Inl err \<Rightarrow> (c, Inl err)
      | Inr bal \<Rightarrow> (c, Inr \<lparr>br_user_id = user_id, br_balance_cents = bal\<rparr>)))"

text \<open>The read tools have no \<^verbatim>\<open>except\<close> clause: the connection is closed, no more.\<close>

definition get_balance :: "db \<Rightarrow> string \<Rightarrow> db \<times> (error + balance_response)" where
  "get_balance d user_id =
     (case get_balance_try (connect d) user_id of (c, res) \<Rightarrow> (close c, res))"

definition get_product_try :: "conn \<Rightarrow> string \<Rightarrow> conn \<times> (error + product)" where
  "get_product_try c pid =
     (case find (\<lambda>p. product_id p = pid) (products (view c)) of
        None \<Rightarrow> (c, Inl UnknownProduct)
      | Some row \<Rightarrow> (c, Inr row))"

definition get_product :: "db \<Rightarrow> string \<Rightarrow> db \<times> (error + product)" where
  "get_product d pid =
     (case get_product_try (connect d) pid of (c, res) \<Rightarrow> (close c, res))"

record order_item =
  it_product_id :: string
  it_name :: string
  it_quantity :: int
  it_unit_price_cents :: int

record order =
  ord_order_id :: string
  ord_created_at :: string
  ord_status :: string
  ord_total_cents :: int
  ord_items :: "order_item list"

record get_orders_response =
  go_user_id :: string
  go_orders :: "order list"

text \<open>
  \<^verbatim>\<open>ORDER BY created_at DESC\<close>: the timestamps are compared as byte strings; rows
  with equal timestamps stay in table order (SQL leaves their order open).
\<close>

definition order_by_created_at_desc :: "order_row list \<Rightarrow> order_row list" where
  "order_by_created_at_desc rows = rev (sort_key o_created_at (rev rows))"

definition get_orders_try :: "conn \<Rightarrow> string \<Rightarrow> int \<Rightarrow> conn \<times> (error + get_orders_response)" where
  "get_orders_try c user_id limit =
     (case ensure_user_exists c user_id of
        Inl err \<Rightarrow> (c, Inl err)
      | Inr _ \<Rightarrow>
          (let order_rows =
                 take (nat limit)
                   (order_by_created_at_desc
                      (filter (\<lambda>row. o_user_id row = user_id) (orders (view c))))
           in (c, Inr \<lparr>go_user_id = user_id,
                        go_orders =
                          map (\<lambda>row.
                                 \<lparr>ord_order_id = o_order_id row,
                                  ord_created_at = o_created_at row,
                                  ord_status = o_status row,
                                  ord_total_cents = o_total_cents row,
                                  ord_items =
                                    map (\<lambda>(oi, p).
                                           \<lparr>it_product_id = oi_product_id oi,
                                            it_name = name p,
                                            it_quantity = oi_quantity oi,
                                            it_unit_price_cents = oi_unit_price_cents oi\<rparr>)
                                        (join_items (view c) (o_order_id row))\<rparr>)
                              order_rows\<rparr>)))"

definition get_orders :: "db \<Rightarrow> string \<Rightarrow> int \<Rightarrow> db \<times> (error + get_orders_response)" where
  "get_orders d user_id limit =
     (if limit \<le> 0 \<or> limit > 50 then (d, Inl InvalidLimit)
      else case get_orders_try (connect d) user_id limit of (c, res) \<Rightarrow> (close c, res))"

section \<open>Tool 3: search_products\<close>

subsection \<open>Python's string methods, on ASCII\<close>

definition is_space :: "char \<Rightarrow> bool" where
  "is_space ch = (of_char ch \<in> {9, 10, 11, 12, 13, 28, 29, 30, 31, 32 :: nat})"

definition strip :: "string \<Rightarrow> string" where
  "strip s = rev (dropWhile is_space (rev (dropWhile is_space s)))"

definition lower_char :: "char \<Rightarrow> char" where
  "lower_char ch =
     (let n = of_char ch :: nat in if 65 \<le> n \<and> n \<le> 90 then char_of (n + 32) else ch)"

definition lower :: "string \<Rightarrow> string" where
  "lower s = map lower_char s"

definition replace_hyphen :: "string \<Rightarrow> string" where
  "replace_hyphen s = map (\<lambda>ch. if ch = CHR ''-'' then CHR '' '' else ch) s"

text \<open>\<^verbatim>\<open>s.split()\<close>: the maximal runs of non-space characters; \<open>cur\<close> is the run
  being read.\<close>

fun split_from :: "string \<Rightarrow> string \<Rightarrow> string list" where
  "split_from cur [] = (if cur = [] then [] else [cur])"
| "split_from cur (ch # s) =
     (if is_space ch then (if cur = [] then split_from [] s else cur # split_from [] s)
      else split_from (cur @ [ch]) s)"

definition split :: "string \<Rightarrow> string list" where
  "split s = split_from [] s"

definition endswith_s :: "string \<Rightarrow> bool" where
  "endswith_s w = (w \<noteq> [] \<and> last w = CHR ''s'')"

text \<open>The loop that builds \<^verbatim>\<open>words\<close>: empty words are skipped, and a word longer
  than three characters that ends in s loses that s.\<close>

fun fallback_words :: "string list \<Rightarrow> string list" where
  "fallback_words [] = []"
| "fallback_words (w # ws) =
     (if w = [] then fallback_words ws
      else (if length w > 3 \<and> endswith_s w then butlast w else w) # fallback_words ws)"

subsection \<open>SQLite's LIKE and ORDER BY\<close>

text \<open>
  \<open>like pat s\<close> is \<^verbatim>\<open>s LIKE pat\<close> with no escape character: a percent sign in the
  pattern matches any run of characters, an underscore any one character, and every
  other character itself, letters without regard to case.
\<close>

fun like :: "string \<Rightarrow> string \<Rightarrow> bool" where
  "like [] [] = True"
| "like [] (x # xs) = False"
| "like (ch # pat) [] = (ch = CHR ''%'' \<and> like pat [])"
| "like (ch # pat) (x # xs) =
     (if ch = CHR ''%'' then like pat (x # xs) \<or> like (ch # pat) xs
      else (ch = CHR ''_'' \<or> lower_char ch = lower_char x) \<and> like pat xs)"

text \<open>\<^verbatim>\<open>LOWER(name) LIKE ?\<close> with the parameter \<^verbatim>\<open>f"%{w}%"\<close>.\<close>

definition name_like :: "string \<Rightarrow> product \<Rightarrow> bool" where
  "name_like w p = like (CHR ''%'' # w @ ''%'') (lower (name p))"

text \<open>\<^verbatim>\<open>ORDER BY name ASC\<close>: names are compared as byte strings; rows with equal
  names stay in table order (SQL leaves their order open).\<close>

definition order_by_name :: "product list \<Rightarrow> product list" where
  "order_by_name rows = sort_key name rows"

definition search_products_try :: "conn \<Rightarrow> string option \<Rightarrow> conn \<times> (error + product list)" where
  "search_products_try c query =
     (case query of
        None \<Rightarrow> (c, Inr (order_by_name (products (view c))))
      | Some qs \<Rightarrow>
          if strip qs = [] then (c, Inr (order_by_name (products (view c))))
          else
            (let q_raw = lower (strip qs);
                 rows = order_by_name (filter (name_like q_raw) (products (view c)))
             in if length rows = 0 then
                  (let words = fallback_words (split (replace_hyphen q_raw))
                   in if words \<noteq> [] then
                        (c, Inr (order_by_name
                                  (filter (\<lambda>p. list_ex (\<lambda>w. name_like w p) words)
                                     (products (view c)))))
                      else (c, Inr rows))
                else (c, Inr rows)))"

definition search_products :: "db \<Rightarrow> string option \<Rightarrow> db \<times> (error + product list)" where
  "search_products d query =
     (case search_products_try (connect d) query of (c, res) \<Rightarrow> (close c, res))"

section \<open>Sequences of calls\<close>

datatype call =
    GetBalance string
  | AddFunds env string int string string
  | SearchProducts "string option"
  | GetProduct string
  | Purchase env string string int string
  | GetOrders string int

text \<open>The database a call leaves behind, whatever it returns or raises.\<close>

fun exec :: "db \<Rightarrow> call \<Rightarrow> db" where
  "exec d (GetBalance user_id) = fst (get_balance d user_id)"
| "exec d (AddFunds e user_id amount_cents source client_request_id) =
     fst (add_funds e d user_id amount_cents source client_request_id)"
| "exec d (SearchProducts query) = fst (search_products d query)"
| "exec d (GetProduct pid) = fst (get_product d pid)"
| "exec d (Purchase e user_id pid quantity client_request_id) =
     fst (purchase e d user_id pid quantity client_request_id)"
| "exec d (GetOrders user_id limit) = fst (get_orders d user_id limit)"

definition run :: "db \<Rightarrow> call list \<Rightarrow> db" where
  "run d calls = foldl exec d calls"

section \<open>Notions used by the properties\<close>

subsection \<open>The rows a first-time call writes\<close>

definition set_balance :: "string \<Rightarrow> int \<Rightarrow> wallet_row list \<Rightarrow> wallet_row list" where
  "set_balance user_id bal ws =
     map (\<lambda>w. if w_user_id w = user_id then w\<lparr>w_balance_cents := bal\<rparr> else w) ws"

definition set_inventory :: "string \<Rightarrow> int \<Rightarrow> product list \<Rightarrow> product list" where
  "set_inventory pid n ps =
     map (\<lambda>p. if product_id p = pid then p\<lparr>inventory := n\<rparr> else p) ps"

definition topup_row :: "env \<Rightarrow> string \<Rightarrow> int \<Rightarrow> string \<Rightarrow> string \<Rightarrow> ledger_row" where
  "topup_row e user_id amount_cents source client_request_id =
     \<lparr>l_tx_id = new_tx_id e, l_user_id = user_id, l_kind = ''TOPUP'',
      l_amount_cents = amount_cents, l_created_at = utc_now_iso e,
      l_client_request_id = client_request_id,
      l_metadata_json = \<lparr>m_order_id = None, m_product_id = None, m_quantity = None,
                           m_source = Some source\<rparr>\<rparr>"

definition placed_order :: "env \<Rightarrow> string \<Rightarrow> int \<Rightarrow> order_row" where
  "placed_order e user_id total_cents =
     \<lparr>o_order_id = new_order_id e, o_user_id = user_id, o_created_at = utc_now_iso e,
      o_status = ''PLACED'', o_total_cents = total_cents\<rparr>"

definition placed_item :: "env \<Rightarrow> string \<Rightarrow> int \<Rightarrow> int \<Rightarrow> order_item_row" where
  "placed_item e pid quantity price =
     \<lparr>oi_order_id = new_order_id e, oi_product_id = pid, oi_quantity = quantity,
      oi_unit_price_cents = price\<rparr>"

definition purchase_row :: "env \<Rightarrow> string \<Rightarrow> string \<Rightarrow> int \<Rightarrow> int \<Rightarrow> string \<Rightarrow> ledger_row" where
  "purchase_row e user_id pid quantity total_cents client_request_id =
     \<lparr>l_tx_id = new_tx_id e, l_user_id = user_id, l_kind = ''PURCHASE'',
      l_amount_cents = - total_cents, l_created_at = utc_now_iso e,
      l_client_request_id = client_request_id,
      l_metadata_json = \<lparr>m_order_id = Some (new_order_id e), m_product_id = Some pid,
                           m_quantity = Some quantity, m_source = None\<rparr>\<rparr>"

text \<open>The database after a first-time purchase of \<open>quantity\<close> units of the product row
  \<open>p\<close> by a user whose balance was \<open>bal\<close>.\<close>

definition purchased :: "env \<Rightarrow> db \<Rightarrow> string \<Rightarrow> product \<Rightarrow> int \<Rightarrow> string \<Rightarrow> int \<Rightarrow> db" where
  "purchased e d user_id p quantity client_request_id bal =
     d\<lparr>wallets := set_balance user_id (bal - price_cents p * quantity) (wallets d),
       products := set_inventory (product_id p) (inventory p - quantity) (products d),
       orders := orders d @ [placed_order e user_id (price_cents p * quantity)],
       order_items := order_items d @ [placed_item e (product_id p) quantity (price_cents p)],
       ledger := ledger d @
         [purchase_row e user_id (product_id p) quantity (price_cents p * quantity)
            client_request_id]\<rparr>"

subsection \<open>Invariants\<close>

text \<open>The sum of the ledger amounts of a user.\<close>

definition ledger_sum :: "db \<Rightarrow> string \<Rightarrow> int" where
  "ledger_sum d user_id =
     sum_list (map l_amount_cents (filter (\<lambda>l. l_user_id l = user_id) (ledger d)))"

definition non_negative :: "db \<Rightarrow> bool" where
  "non_negative d =
     (list_all (\<lambda>w. 0 \<le> w_balance_cents w) (wallets d) \<and>
      list_all (\<lambda>p. 0 \<le> inventory p) (products d))"

text \<open>Modelled from the spec: the foreign key of order_items to orders
  (\<^verbatim>\<open>order_items(order_id FK)\<close>), which \<^verbatim>\<open>schema.sql\<close> would declare and SQLite
  enforces: every item row belongs to an order row.\<close>

definition order_items_fk :: "db \<Rightarrow> bool" where
  "order_items_fk d =
     list_all (\<lambda>oi. oi_order_id oi \<in> set (map o_order_id (orders d))) (order_items d)"

subsection \<open>The search algorithm as the specification words it\<close>

text \<open>A name contains a word case-insensitively.\<close>

definition name_contains :: "string \<Rightarrow> product \<Rightarrow> bool" where
  "name_contains w p = sublist (lower w) (lower (name p))"

text \<open>A word longer than three characters that ends in s, without that s.\<close>

definition strip_plural :: "string \<Rightarrow> string" where
  "strip_plural w = (if length w > 3 \<and> last w = CHR ''s'' then butlast w else w)"

text \<open>
  The full catalog for an absent or blank query; else the products whose name contains
  the (trimmed) query; else, when there are none, the products whose name contains one
  of the query's words, hyphens being separators and plurals stripped; by name
  ascending in every case.
\<close>

definition search_spec :: "db \<Rightarrow> string option \<Rightarrow> product list" where
  "search_spec d query =
     (case query of
        None \<Rightarrow> order_by_name (products d)
      | Some qs \<Rightarrow>
          if strip qs = [] then order_by_name (products d)
          else
            (let q = lower (strip qs);
                 hits = filter (name_contains q) (products d)
             in if hits \<noteq> [] then order_by_name hits
                else order_by_name
                       (filter (\<lambda>p. list_ex (\<lambda>w. name_contains w p)
                                        (map strip_plural (split (replace_hyphen q))))
                          (products d))))"

text \<open>A query with no character that LIKE reads as a wildcard.\<close>

definition wildcard_free :: "string \<Rightarrow> bool" where
  "wildcard_free s = list_all (\<lambda>ch. ch \<noteq> CHR ''%'' \<and> ch \<noteq> CHR ''_'') s"

subsection \<open>A small store\<close>

text \<open>Two users and three products of the seed script, with the wallet of scenario A
  (1200 cents) and of scenario C (500 cents).\<close>

definition usb_cable :: product where
  "usb_cable = \<lparr>product_id = ''p_2001'', name = ''USB-C Cable (1m)'', price_cents = 899,
                 inventory = 25\<rparr>"

definition ethernet_cable :: product where
  "ethernet_cable = \<lparr>product_id = ''p_2012'', name = ''Ethernet Cable (2m)'',
                      price_cents = 699, inventory = 40\<rparr>"

definition sold_out_lamp :: product where
  "sold_out_lamp = \<lparr>product_id = ''p_2010'', name = ''Desk Lamp'', price_cents = 3499,
                     inventory = 0\<rparr>"

definition shop :: db where
  "shop = \<lparr>users = [\<lparr>u_user_id = ''u_1002'', u_name = ''Sam Rivera''\<rparr>,
                    \<lparr>u_user_id = ''u_1003'', u_name = ''Taylor Okafor''\<rparr>],
           wallets = [\<lparr>w_user_id = ''u_1002'', w_balance_cents = 1200\<rparr>,
                      \<lparr>w_user_id = ''u_1003'', w_balance_cents = 500\<rparr>],
           products = [usb_cable, sold_out_lamp, ethernet_cable],
           orders = [], order_items = [], ledger = []\<rparr>"

definition draw1 :: env where
  "draw1 = \<lparr>uuid_order = ''3f2a9c01d4e7b8a6'', uuid_tx = ''9b1d'',
            utc_now_iso = ''2024-05-01T10:00:00+00:00''\<rparr>"

definition draw2 :: env where
  "draw2 = \<lparr>uuid_order = ''77c0e1a2b3''  , uuid_tx = ''4e5f'',
            utc_now_iso = ''2024-05-01T10:05:00+00:00''\<rparr>"

text \<open>The store after a top-up of 5000 cents, and after the purchase of scenario A.\<close>

definition shop_after_topup :: db where
  "shop_after_topup = fst (add_funds draw1 shop ''u_1002'' 5000 ''external'' ''topup-1'')"

definition shop_after_purchase :: db where
  "shop_after_purchase = fst (purchase draw1 shop ''u_1002'' ''p_2001'' 1 ''req-1'')"

section \<open>Basic facts about the two mutating tools\<close>

lemmas conn_defs = connect_def commit_def rollback_def close_def ensure_user_exists_def
  get_wallet_balance_def get_ledger_by_client_request_def update_wallet_def
  update_inventory_def insert_order_def insert_order_item_def insert_ledger_def

lemmas purchase_defs = purchase_def purchase_try_def purchase_normal_def purchase_replay_def

lemmas row_defs = set_balance_def set_inventory_def topup_row_def placed_order_def
  placed_item_def purchase_row_def purchased_def

lemmas shop_defs = shop_def usb_cable_def ethernet_cable_def sold_out_lamp_def draw1_def
  draw2_def new_order_id_def new_tx_id_def

lemma find_product_id: "find (\<lambda>p. product_id p = pid) ps = Some p \<Longrightarrow> product_id p = pid"
  by (induction ps) (auto split: if_splits)

text \<open>A call of \<open>add_funds\<close> either leaves the database as it was, or it is a
  first-time top-up: the wallet rows of the user are set to the new balance and one
  ledger row is appended.\<close>

lemma add_funds_effect:
  assumes "add_funds e d u a s crid = (d', res)"
  shows "d' = d \<or>
         (0 < a \<and> get_ledger_by_client_request (connect d) crid = None \<and>
          (\<exists>b. get_wallet_balance (connect d) u = Inr b \<and>
             d' = d\<lparr>wallets := set_balance u (b + a) (wallets d),
                     ledger := ledger d @ [topup_row e u a s crid]\<rparr> \<and>
             res = Inr \<lparr>af_user_id = u, af_added_cents = a, af_new_balance_cents = b + a,
                        af_tx_id = new_tx_id e\<rparr>))"
  using assms
  by (auto simp: add_funds_def add_funds_try_def conn_defs row_defs Let_def
      split: if_splits sum.splits option.splits prod.splits)

text \<open>The same for \<open>purchase\<close>: the database is as it was, or the call is a
  first-time purchase that passed every check.\<close>

lemma purchase_effect:
  assumes "purchase e d u pid q crid = (d', res)"
  shows "d' = d \<or>
         (0 < q \<and> get_ledger_by_client_request (connect d) crid = None \<and>
          (\<exists>p b. find (\<lambda>p. product_id p = pid) (products d) = Some p \<and>
             get_wallet_balance (connect d) u = Inr b \<and>
             q \<le> inventory p \<and> price_cents p * q \<le> b \<and>
             d' = purchased e d u p q crid b \<and>
             res = Inr \<lparr>pr_user_id = u, pr_order_id = new_order_id e, pr_product_id = pid,
                        pr_quantity = q, pr_unit_price_cents = price_cents p,
                        pr_total_cents = price_cents p * q,
                        pr_new_balance_cents = b - price_cents p * q\<rparr>))"
  using assms
  by (auto simp: purchase_defs conn_defs row_defs Let_def
      dest: find_product_id
      split: if_splits sum.splits option.splits prod.splits list.splits)

section \<open>Atomicity of purchase\<close>

text \<open>
  Claim C4. If \<open>purchase\<close> fails, with whatever error, the database after the call is
  the database before it: wallet balances, inventories, orders, order items and ledger
  are unchanged. The block commits only as its last step, and the handler rolls back.
\<close>

theorem purchase_error_atomic:
  assumes "purchase e d user_id pid quantity client_request_id = (d', Inl err)"
  shows "d' = d"
  using assms
  by (auto simp: purchase_defs conn_defs Let_def
      split: if_splits sum.splits option.splits prod.splits list.splits)

text \<open>Scenario C: 500 cents do not buy a cable of 899 cents, and nothing changes.\<close>

theorem purchase_error_atomic_witness:
  "purchase draw1 shop ''u_1003'' ''p_2001'' 1 ''req-7'' = (shop, Inl InsufficientFunds)"
proof -
  have outcome: "purchase draw1 shop ''u_1003'' ''p_2001'' 1 ''req-7''
             = (fst (purchase draw1 shop ''u_1003'' ''p_2001'' 1 ''req-7''),
                Inl InsufficientFunds)"
    by (simp add: purchase_defs conn_defs shop_defs)
  show ?thesis
    using purchase_error_atomic [OF outcome] outcome by simp
qed

section \<open>The read tools\<close>

text \<open>
  Claim C9. \<open>get_balance\<close>, \<open>get_product\<close>, \<open>search_products\<close> and \<open>get_orders\<close>
  leave the whole database unchanged on every input, whether they return or raise.
\<close>

theorem read_accessors_pure:
  "fst (get_balance d user_id) = d \<and> fst (get_product d pid) = d \<and>
   fst (search_products d query) = d \<and> fst (get_orders d user_id limit) = d"
  by (simp add: get_balance_def get_balance_try_def get_product_def get_product_try_def
      search_products_def search_products_try_def get_orders_def get_orders_try_def
      conn_defs Let_def split: sum.splits option.splits)

section \<open>Postconditions of a first-time purchase\<close>

lemma find_in_set: "find P xs = Some x \<Longrightarrow> x \<in> set xs \<and> P x"
  by (induction xs) (auto split: if_splits)

lemma find_set_balance:
  "find (\<lambda>w. w_user_id w = u') (set_balance u v ws) =
     (if u' = u then map_option (\<lambda>w. w\<lparr>w_balance_cents := v\<rparr>) (find (\<lambda>w. w_user_id w = u) ws)
      else find (\<lambda>w. w_user_id w = u') ws)"
  by (induction ws) (auto simp: set_balance_def)

lemma find_set_inventory:
  "find (\<lambda>p. product_id p = pid') (set_inventory pid n ps) =
     (if pid' = pid then map_option (\<lambda>p. p\<lparr>inventory := n\<rparr>) (find (\<lambda>p. product_id p = pid) ps)
      else find (\<lambda>p. product_id p = pid') ps)"
  by (induction ps) (auto simp: set_inventory_def)

lemma product_ids_set_inventory: "map product_id (set_inventory pid n ps) = map product_id ps"
  by (induction ps) (auto simp: set_inventory_def)

lemma user_in_table:
  "ensure_user_exists (connect d) u = Inr () \<Longrightarrow> u \<in> set (map u_user_id (users d))"
  by (auto simp: conn_defs split: option.splits dest!: find_in_set)

lemma fresh_request_not_in_table:
  "get_ledger_by_client_request (connect d) crid = None \<Longrightarrow>
   crid \<notin> set (map l_client_request_id (ledger d))"
  by (auto simp: conn_defs find_None_iff)

lemma product_in_table:
  "find (\<lambda>p. product_id p = pid) ps = Some p \<Longrightarrow> pid \<in> set (map product_id ps)"
  by (auto dest!: find_in_set)

text \<open>The outcome of a first-time purchase that passes every check.\<close>

lemma purchase_first_time_eq:
  assumes user: "ensure_user_exists (connect d) u = Inr ()"
    and prod: "find (\<lambda>p. product_id p = pid) (products d) = Some p"
    and qty: "0 < q"
    and stock: "q \<le> inventory p"
    and bal: "get_wallet_balance (connect d) u = Inr b"
    and funds: "price_cents p * q \<le> b"
    and fresh: "get_ledger_by_client_request (connect d) crid = None"
    and new_order: "new_order_id e \<notin> set (map o_order_id (orders d))"
    and new_tx: "new_tx_id e \<notin> set (map l_tx_id (ledger d))"
  shows "purchase e d u pid q crid =
           (purchased e d u p q crid b,
            Inr \<lparr>pr_user_id = u, pr_order_id = new_order_id e, pr_product_id = pid,
                 pr_quantity = q, pr_unit_price_cents = price_cents p,
                 pr_total_cents = price_cents p * q,
                 pr_new_balance_cents = b - price_cents p * q\<rparr>)"
proof -
  have pid: "product_id p = pid"
    using prod by (rule find_product_id)
  have keys: "u \<in> set (map u_user_id (users d))"
    "crid \<notin> set (map l_client_request_id (ledger d))"
    "pid \<in> set (map product_id (products d))"
    using user fresh prod
    by (blast dest: user_in_table fresh_request_not_in_table product_in_table)+
  have keys': "u \<in> u_user_id ` set (users d)" "crid \<notin> l_client_request_id ` set (ledger d)"
    "pid \<in> product_id ` set (products d)" "new_order_id e \<notin> o_order_id ` set (orders d)"
    "new_tx_id e \<notin> l_tx_id ` set (ledger d)"
    using keys new_order new_tx by simp_all
  show ?thesis
    using user prod qty stock bal funds fresh keys' pid
    by (auto simp: purchase_defs conn_defs row_defs Let_def
        split: sum.splits option.splits)
qed


text \<open>
  Claim C5. In a state where the user and the product exist, the quantity is positive,
  the stock covers it, the balance covers price times quantity and the request id is not
  in the ledger, \<open>purchase\<close> returns a total of price times quantity and a new balance
  of the old one minus the total; afterwards the inventory is lower by the quantity, the
  balance lower by the total, and exactly one order row (status PLACED) and one item row
  (unit price: the price read in this call) have been added. The ids the call draws are
  taken to be new, as the data model has it (system-generated, unique).
\<close>

theorem purchase_first_time:
  assumes user: "ensure_user_exists (connect d) user_id = Inr ()"
    and prod: "snd (get_product d pid) = Inr p"
    and qty: "0 < quantity"
    and stock: "quantity \<le> inventory p"
    and bal: "get_wallet_balance (connect d) user_id = Inr bal"
    and funds: "price_cents p * quantity \<le> bal"
    and fresh: "get_ledger_by_client_request (connect d) client_request_id = None"
    and new_order: "new_order_id e \<notin> set (map o_order_id (orders d))"
    and new_tx: "new_tx_id e \<notin> set (map l_tx_id (ledger d))"
  shows "\<exists>d' r. purchase e d user_id pid quantity client_request_id = (d', Inr r) \<and>
           pr_total_cents r = price_cents p * quantity \<and>
           pr_new_balance_cents r = bal - pr_total_cents r \<and>
           snd (get_product d' pid) = Inr (p\<lparr>inventory := inventory p - quantity\<rparr>) \<and>
           get_wallet_balance (connect d') user_id = Inr (bal - pr_total_cents r) \<and>
           orders d' = orders d @
             [\<lparr>o_order_id = pr_order_id r, o_user_id = user_id, o_created_at = utc_now_iso e,
               o_status = ''PLACED'', o_total_cents = pr_total_cents r\<rparr>] \<and>
           order_items d' = order_items d @
             [\<lparr>oi_order_id = pr_order_id r, oi_product_id = pid, oi_quantity = quantity,
               oi_unit_price_cents = price_cents p\<rparr>]"
proof -
  have row: "find (\<lambda>p. product_id p = pid) (products d) = Some p"
    using prod by (simp add: get_product_def get_product_try_def conn_defs split: option.splits)
  have wallet: "find (\<lambda>w. w_user_id w = user_id) (wallets d) \<noteq> None"
    using bal by (auto simp: conn_defs split: option.splits)
  define d' where "d' = purchased e d user_id p quantity client_request_id bal"
  define r where "r = \<lparr>pr_user_id = user_id, pr_order_id = new_order_id e,
      pr_product_id = pid, pr_quantity = quantity, pr_unit_price_cents = price_cents p,
      pr_total_cents = price_cents p * quantity,
      pr_new_balance_cents = bal - price_cents p * quantity\<rparr>"
  have call: "purchase e d user_id pid quantity client_request_id = (d', Inr r)"
    unfolding d'_def r_def
    by (rule purchase_first_time_eq [OF user row qty stock bal funds fresh new_order new_tx])
  have total: "pr_total_cents r = price_cents p * quantity"
    and new_bal: "pr_new_balance_cents r = bal - pr_total_cents r"
    by (simp_all add: r_def)
  have wallet': "get_wallet_balance (connect d') user_id = Inr (bal - pr_total_cents r)"
    using wallet by (auto simp: conn_defs d'_def r_def purchased_def find_set_balance)
  have product': "snd (get_product d' pid) = Inr (p\<lparr>inventory := inventory p - quantity\<rparr>)"
    using row find_product_id [OF row]
    by (simp add: get_product_def get_product_try_def conn_defs d'_def purchased_def
        find_set_inventory)
  have orders': "orders d' = orders d @
      [\<lparr>o_order_id = pr_order_id r, o_user_id = user_id, o_created_at = utc_now_iso e,
        o_status = ''PLACED'', o_total_cents = pr_total_cents r\<rparr>]"
    by (simp add: d'_def r_def purchased_def placed_order_def)
  have items': "order_items d' = order_items d @
      [\<lparr>oi_order_id = pr_order_id r, oi_product_id = pid, oi_quantity = quantity,
        oi_unit_price_cents = price_cents p\<rparr>]"
    using find_product_id [OF row]
    by (simp add: d'_def r_def purchased_def placed_item_def)
  from call total new_bal product' wallet' orders' items' show ?thesis
    by blast
qed

text \<open>Scenario A: 1200 cents, a cable of 899 cents, one unit: new balance 301.\<close>

theorem purchase_first_time_witness:
  "ensure_user_exists (connect shop) ''u_1002'' = Inr () \<and>
   snd (get_product shop ''p_2001'') = Inr usb_cable \<and>
   (0::int) < 1 \<and> 1 \<le> inventory usb_cable \<and>
   get_wallet_balance (connect shop) ''u_1002'' = Inr 1200 \<and>
   price_cents usb_cable * 1 \<le> 1200 \<and>
   get_ledger_by_client_request (connect shop) ''req-1'' = None \<and>
   new_order_id draw1 \<notin> set (map o_order_id (orders shop)) \<and>
   new_tx_id draw1 \<notin> set (map l_tx_id (ledger shop)) \<and>
   (\<exists>d' r. purchase draw1 shop ''u_1002'' ''p_2001'' 1 ''req-1'' = (d', Inr r) \<and>
      pr_total_cents r = 899 \<and> pr_new_balance_cents r = 301 \<and>
      snd (get_product d' ''p_2001'') = Inr (usb_cable\<lparr>inventory := 24\<rparr>) \<and>
      get_wallet_balance (connect d') ''u_1002'' = Inr 301 \<and>
      orders d' =
        [\<lparr>o_order_id = pr_order_id r, o_user_id = ''u_1002'',
          o_created_at = utc_now_iso draw1, o_status = ''PLACED'', o_total_cents = 899\<rparr>] \<and>
      order_items d' =
        [\<lparr>oi_order_id = pr_order_id r, oi_product_id = ''p_2001'', oi_quantity = 1,
          oi_unit_price_cents = 899\<rparr>])"
proof -
  have h1: "ensure_user_exists (connect shop) ''u_1002'' = Inr ()"
    by (simp add: conn_defs shop_defs)
  have h2: "snd (get_product shop ''p_2001'') = Inr usb_cable"
    by (simp add: get_product_def get_product_try_def conn_defs shop_defs)
  have h3: "(0::int) < 1" by simp
  have h4: "1 \<le> inventory usb_cable" by (simp add: shop_defs)
  have h5: "get_wallet_balance (connect shop) ''u_1002'' = Inr 1200"
    by (simp add: conn_defs shop_defs)
  have h6: "price_cents usb_cable * 1 \<le> 1200" by (simp add: shop_defs)
  have h7: "get_ledger_by_client_request (connect shop) ''req-1'' = None"
    by (simp add: conn_defs shop_defs)
  have h8: "new_order_id draw1 \<notin> set (map o_order_id (orders shop))"
    by (simp add: shop_defs)
  have h9: "new_tx_id draw1 \<notin> set (map l_tx_id (ledger shop))"
    by (simp add: shop_defs)
  have facts: "price_cents usb_cable = 899" "inventory usb_cable = 25" "orders shop = []"
    "order_items shop = []"
    by (simp_all add: shop_defs)
  show ?thesis
    using purchase_first_time [OF h1 h2 h3 h4 h5 h6 h7 h8 h9] h1 h2 h4 h5 h6 h7 h8 h9 facts
    by auto
qed

section \<open>Replays\<close>

lemma find_snoc:
  "find P (xs @ [y]) = (case find P xs of None \<Rightarrow> (if P y then Some y else None) | Some x \<Rightarrow> Some x)"
  by (induction xs) auto

text \<open>The outcome of a call whose request id is already in the ledger.\<close>

lemma add_funds_replay_eq:
  assumes "0 < a"
    and "ensure_user_exists (connect d) u = Inr ()"
    and "get_ledger_by_client_request (connect d) crid = Some existing"
    and "get_wallet_balance (connect d) u = Inr bal"
  shows "add_funds e d u a s crid =
           (d, Inr \<lparr>af_user_id = u, af_added_cents = l_amount_cents existing,
                    af_new_balance_cents = bal, af_tx_id = l_tx_id existing\<rparr>)"
  using assms by (simp add: add_funds_def add_funds_try_def conn_defs)

lemma add_funds_try_replay:
  assumes "get_ledger_by_client_request c crid = Some existing"
  shows "fst (add_funds_try e c u a s crid) = c"
  using assms by (simp add: add_funds_try_def split: sum.splits)

text \<open>
  Claim C7. When the request id of an \<open>add_funds\<close> call already has a ledger row, the
  call writes nothing (not even inside its transaction), and what it returns is rebuilt
  from that row: \<open>added_cents\<close> is the amount stored in the row, not the amount
  argument of this call, \<open>tx_id\<close> is the stored one, and \<open>new_balance_cents\<close> is
  the wallet balance read now. It returns whenever the amount is positive and the user
  and the wallet exist.
\<close>

theorem add_funds_replay:
  assumes recorded: "get_ledger_by_client_request (connect d) client_request_id = Some existing"
  shows "fst (add_funds e d user_id amount_cents source client_request_id) = d \<and>
         fst (add_funds_try e (connect d) user_id amount_cents source client_request_id)
           = connect d \<and>
         (0 < amount_cents \<and> ensure_user_exists (connect d) user_id = Inr () \<and>
          get_wallet_balance (connect d) user_id = Inr bal \<longrightarrow>
            snd (add_funds e d user_id amount_cents source client_request_id) =
              Inr \<lparr>af_user_id = user_id, af_added_cents = l_amount_cents existing,
                   af_new_balance_cents = bal, af_tx_id = l_tx_id existing\<rparr>) \<and>
         (\<forall>r. snd (add_funds e d user_id amount_cents source client_request_id) = Inr r \<longrightarrow>
            af_added_cents r = l_amount_cents existing \<and> af_tx_id r = l_tx_id existing \<and>
            get_wallet_balance (connect d) user_id = Inr (af_new_balance_cents r))"
proof -
  have no_write: "fst (add_funds e d user_id amount_cents source client_request_id) = d"
    using add_funds_effect [of e d user_id amount_cents source client_request_id] recorded
    by (cases "add_funds e d user_id amount_cents source client_request_id") auto
  have returned: "af_added_cents r = l_amount_cents existing \<and> af_tx_id r = l_tx_id existing \<and>
      get_wallet_balance (connect d) user_id = Inr (af_new_balance_cents r)"
    if "snd (add_funds e d user_id amount_cents source client_request_id) = Inr r" for r
    using that recorded
    by (auto simp: add_funds_def add_funds_try_def split: if_splits sum.splits)
  show ?thesis
    using no_write add_funds_try_replay [OF recorded] returned
      add_funds_replay_eq [of amount_cents d user_id client_request_id existing bal e source]
      recorded
    by auto
qed


lemma shop_after_topup_eq:
  "shop_after_topup =
     shop\<lparr>wallets := [\<lparr>w_user_id = ''u_1002'', w_balance_cents = 6200\<rparr>,
                        \<lparr>w_user_id = ''u_1003'', w_balance_cents = 500\<rparr>],
          ledger := [topup_row draw1 ''u_1002'' 5000 ''external'' ''topup-1'']\<rparr>"
  by (simp add: shop_after_topup_def add_funds_def add_funds_try_def conn_defs shop_defs
      topup_row_def Let_def)

lemma shop_after_purchase_eq:
  "shop_after_purchase =
     shop\<lparr>wallets := [\<lparr>w_user_id = ''u_1002'', w_balance_cents = 301\<rparr>,
                        \<lparr>w_user_id = ''u_1003'', w_balance_cents = 500\<rparr>],
          products := [usb_cable\<lparr>inventory := 24\<rparr>, sold_out_lamp, ethernet_cable],
          orders := [placed_order draw1 ''u_1002'' 899],
          order_items := [placed_item draw1 ''p_2001'' 1 899],
          ledger := [purchase_row draw1 ''u_1002'' ''p_2001'' 1 899 ''req-1'']\<rparr>"
  by (simp add: shop_after_purchase_def purchase_defs conn_defs shop_defs row_defs Let_def)

text \<open>A top-up of 5000 cents replayed with an amount argument of 700 cents.\<close>

theorem add_funds_replay_witness:
  "get_ledger_by_client_request (connect shop_after_topup) ''topup-1''
     = Some (topup_row draw1 ''u_1002'' 5000 ''external'' ''topup-1'') \<and>
   add_funds draw2 shop_after_topup ''u_1002'' 700 ''card'' ''topup-1'' =
     (shop_after_topup,
      Inr \<lparr>af_user_id = ''u_1002'', af_added_cents = 5000, af_new_balance_cents = 6200,
           af_tx_id = ''tx_9b1d''\<rparr>)"
proof -
  have h: "get_ledger_by_client_request (connect shop_after_topup) ''topup-1''
     = Some (topup_row draw1 ''u_1002'' 5000 ''external'' ''topup-1'')"
    by (simp add: shop_after_topup_eq conn_defs shop_defs topup_row_def)
  have user: "ensure_user_exists (connect shop_after_topup) ''u_1002'' = Inr ()"
    by (simp add: shop_after_topup_eq conn_defs shop_defs)
  have bal: "get_wallet_balance (connect shop_after_topup) ''u_1002'' = Inr 6200"
    by (simp add: shop_after_topup_eq conn_defs shop_defs)
  have row: "l_amount_cents (topup_row draw1 ''u_1002'' 5000 ''external'' ''topup-1'') = 5000"
    "l_tx_id (topup_row draw1 ''u_1002'' 5000 ''external'' ''topup-1'') = ''tx_9b1d''"
    by (simp_all add: topup_row_def shop_defs)
  show ?thesis
    using add_funds_replay [OF h, of draw2 "''u_1002''" 700 "''card''" 6200] h user bal row
    by (simp add: prod_eq_iff)
qed

text \<open>A successful call with a request id that is not yet in the ledger is a first-time
  purchase.\<close>

lemma purchase_fresh_success:
  assumes "purchase e d u pid q crid = (d', Inr r)"
    and "get_ledger_by_client_request (connect d) crid = None"
  shows "0 < q \<and> ensure_user_exists (connect d) u = Inr () \<and>
         (\<exists>p b. find (\<lambda>p. product_id p = pid) (products d) = Some p \<and>
             get_wallet_balance (connect d) u = Inr b \<and>
             q \<le> inventory p \<and> price_cents p * q \<le> b \<and>
             new_order_id e \<notin> set (map o_order_id (orders d)) \<and>
             d' = purchased e d u p q crid b \<and>
             r = \<lparr>pr_user_id = u, pr_order_id = new_order_id e, pr_product_id = pid,
                   pr_quantity = q, pr_unit_price_cents = price_cents p,
                   pr_total_cents = price_cents p * q,
                   pr_new_balance_cents = b - price_cents p * q\<rparr>)"
  using assms
  by (auto simp: purchase_def purchase_try_def purchase_normal_def conn_defs row_defs Let_def
      dest: find_product_id
      split: if_splits sum.splits option.splits prod.splits)

lemma ledger_lookup_purchased:
  assumes "get_ledger_by_client_request (connect d) crid = None"
  shows "get_ledger_by_client_request (connect (purchased e d u p q crid b)) crid
           = Some (purchase_row e u (product_id p) q (price_cents p * q) crid)"
  using assms
  by (simp add: conn_defs purchased_def find_snoc purchase_row_def)

text \<open>
  Claim C10. The replay branch of \<open>add_funds\<close> does not look at the kind of the ledger
  row: after a successful first-time purchase, \<open>add_funds\<close> with the request id of that
  purchase, any existing user with a wallet and any positive amount succeeds, writes
  nothing and returns as \<open>added_cents\<close> the amount of the purchase row, the negated
  total, which is negative when the unit price is positive.
\<close>

theorem add_funds_replays_purchase:
  assumes first: "purchase e d user_id pid quantity client_request_id = (d1, Inr r)"
    and fresh: "get_ledger_by_client_request (connect d) client_request_id = None"
    and amount: "0 < amount_cents"
    and user: "ensure_user_exists (connect d1) user_id' = Inr ()"
    and wallet: "get_wallet_balance (connect d1) user_id' = Inr bal"
  shows "add_funds e' d1 user_id' amount_cents source client_request_id =
           (d1, Inr \<lparr>af_user_id = user_id', af_added_cents = - pr_total_cents r,
                     af_new_balance_cents = bal, af_tx_id = new_tx_id e\<rparr>) \<and>
         (0 < pr_unit_price_cents r \<longrightarrow> - pr_total_cents r < 0)"
proof -
  from purchase_fresh_success [OF first fresh]
  obtain p b where qty: "0 < quantity"
    and d1: "d1 = purchased e d user_id p quantity client_request_id b"
    and r: "r = \<lparr>pr_user_id = user_id, pr_order_id = new_order_id e, pr_product_id = pid,
                   pr_quantity = quantity, pr_unit_price_cents = price_cents p,
                   pr_total_cents = price_cents p * quantity,
                   pr_new_balance_cents = b - price_cents p * quantity\<rparr>"
    by blast
  have recorded: "get_ledger_by_client_request (connect d1) client_request_id
      = Some (purchase_row e user_id (product_id p) quantity (price_cents p * quantity)
                client_request_id)"
    unfolding d1 by (rule ledger_lookup_purchased [OF fresh])
  have "add_funds e' d1 user_id' amount_cents source client_request_id =
           (d1, Inr \<lparr>af_user_id = user_id', af_added_cents = - pr_total_cents r,
                     af_new_balance_cents = bal, af_tx_id = new_tx_id e\<rparr>)"
    using add_funds_replay_eq [OF amount user recorded wallet, of e' source]
    by (simp add: purchase_row_def r)
  moreover have "0 < pr_unit_price_cents r \<longrightarrow> - pr_total_cents r < 0"
    using qty by (simp add: r)
  ultimately show ?thesis by simp
qed

text \<open>After the purchase of scenario A, a top-up under the same request id returns
  an added amount of minus 899 cents.\<close>

theorem add_funds_replays_purchase_witness:
  "purchase draw1 shop ''u_1002'' ''p_2001'' 1 ''req-1'' =
     (shop_after_purchase,
      Inr \<lparr>pr_user_id = ''u_1002'', pr_order_id = ''o_3f2a9c01d4'', pr_product_id = ''p_2001'',
           pr_quantity = 1, pr_unit_price_cents = 899, pr_total_cents = 899,
           pr_new_balance_cents = 301\<rparr>) \<and>
   get_ledger_by_client_request (connect shop) ''req-1'' = None \<and>
   (0::int) < 250 \<and>
   ensure_user_exists (connect shop_after_purchase) ''u_1003'' = Inr () \<and>
   get_wallet_balance (connect shop_after_purchase) ''u_1003'' = Inr 500 \<and>
   add_funds draw2 shop_after_purchase ''u_1003'' 250 ''card'' ''req-1'' =
     (shop_after_purchase,
      Inr \<lparr>af_user_id = ''u_1003'', af_added_cents = - 899, af_new_balance_cents = 500,
           af_tx_id = ''tx_9b1d''\<rparr>)"
proof -
  have h1: "purchase draw1 shop ''u_1002'' ''p_2001'' 1 ''req-1'' =
     (shop_after_purchase,
      Inr \<lparr>pr_user_id = ''u_1002'', pr_order_id = ''o_3f2a9c01d4'', pr_product_id = ''p_2001'',
           pr_quantity = 1, pr_unit_price_cents = 899, pr_total_cents = 899,
           pr_new_balance_cents = 301\<rparr>)"
    unfolding shop_after_purchase_def
    by (simp add: purchase_defs conn_defs shop_defs prod_eq_iff Let_def)
  have h2: "get_ledger_by_client_request (connect shop) ''req-1'' = None"
    by (simp add: conn_defs shop_defs)
  have h3: "(0::int) < 250" by simp
  have h4: "ensure_user_exists (connect shop_after_purchase) ''u_1003'' = Inr ()"
    by (simp add: shop_after_purchase_eq conn_defs shop_defs)
  have h5: "get_wallet_balance (connect shop_after_purchase) ''u_1003'' = Inr 500"
    by (simp add: shop_after_purchase_eq conn_defs shop_defs)
  show ?thesis
    using add_funds_replays_purchase [OF h1 h2 h3 h4 h5, of draw2 "''card''"] h1 h2 h4 h5
    by (simp add: shop_defs)
qed


section \<open>Idempotence\<close>

lemma add_funds_success_cases:
  assumes "add_funds e d u a s crid = (d', Inr r)"
  shows "0 < a \<and> ensure_user_exists (connect d) u = Inr () \<and>
         ((\<exists>existing b. get_ledger_by_client_request (connect d) crid = Some existing \<and>
             get_wallet_balance (connect d) u = Inr b \<and> d' = d \<and>
             r = \<lparr>af_user_id = u, af_added_cents = l_amount_cents existing,
                   af_new_balance_cents = b, af_tx_id = l_tx_id existing\<rparr>) \<or>
          (get_ledger_by_client_request (connect d) crid = None \<and>
           (\<exists>b. get_wallet_balance (connect d) u = Inr b \<and>
             d' = d\<lparr>wallets := set_balance u (b + a) (wallets d),
                     ledger := ledger d @ [topup_row e u a s crid]\<rparr> \<and>
             r = \<lparr>af_user_id = u, af_added_cents = a, af_new_balance_cents = b + a,
                   af_tx_id = new_tx_id e\<rparr>)))"
  using assms
  by (auto simp: add_funds_def add_funds_try_def conn_defs row_defs Let_def
      split: if_splits sum.splits option.splits prod.splits)

lemma purchase_replay_eq:
  assumes "0 < q"
    and "ensure_user_exists (connect d) u = Inr ()"
    and "get_ledger_by_client_request (connect d) crid = Some existing"
  shows "purchase e d u pid q crid =
           (case purchase_replay (connect d) u existing of
              Inl err \<Rightarrow> (d, Inl err) | Inr r \<Rightarrow> (d, Inr r))"
  using assms
  by (simp add: purchase_def purchase_try_def connect_def close_def rollback_def
      split: sum.splits)

lemma purchase_replay_success:
  assumes "purchase e d u pid q crid = (d', Inr r)"
    and "get_ledger_by_client_request (connect d) crid = Some existing"
  shows "0 < q \<and> ensure_user_exists (connect d) u = Inr () \<and> d' = d \<and>
         purchase_replay (connect d) u existing = Inr r"
  using assms
  by (auto simp: purchase_def purchase_try_def connect_def close_def rollback_def
      split: if_splits sum.splits)

lemma users_purchased: "users (purchased e d u p q crid b) = users d"
  by (simp add: purchased_def)

lemma join_items_purchased:
  assumes fk: "order_items_fk d"
    and new_order: "new_order_id e \<notin> set (map o_order_id (orders d))"
    and prod: "find (\<lambda>p. product_id p = pid) (products d) = Some p"
  shows "\<exists>p' rest. join_items (purchased e d u p q crid b) (new_order_id e)
           = (placed_item e pid q (price_cents p), p') # rest"
proof -
  have pid: "product_id p = pid"
    using prod by (rule find_product_id)
  have "oi_order_id oi \<noteq> new_order_id e" if "oi \<in> set (order_items d)" for oi
    using fk new_order that unfolding order_items_fk_def list_all_iff by metis
  then have none: "filter (\<lambda>oi. oi_order_id oi = new_order_id e) (order_items d) = []"
    by (simp add: filter_empty_conv)
  have "find (\<lambda>p. product_id p = pid) (set_inventory pid (inventory p - q) (products d)) \<noteq> None"
    using prod by (simp add: find_set_inventory)
  then have "filter (\<lambda>p. product_id p = pid) (set_inventory pid (inventory p - q) (products d)) \<noteq> []"
    by (auto simp: find_None_iff filter_empty_conv)
  then obtain p' ps where "filter (\<lambda>p. product_id p = pid)
      (set_inventory pid (inventory p - q) (products d)) = p' # ps"
    by (cases "filter (\<lambda>p. product_id p = pid) (set_inventory pid (inventory p - q) (products d))")
      auto
  then show ?thesis
    using none pid by (simp add: join_items_def purchased_def placed_item_def)
qed

lemma replay_of_purchased:
  assumes fk: "order_items_fk d"
    and new_order: "new_order_id e \<notin> set (map o_order_id (orders d))"
    and prod: "find (\<lambda>p. product_id p = pid) (products d) = Some p"
    and bal: "get_wallet_balance (connect d) u = Inr b"
  shows "purchase_replay (connect (purchased e d u p q crid b)) u
           (purchase_row e u (product_id p) q (price_cents p * q) crid)
         = Inr \<lparr>pr_user_id = u, pr_order_id = new_order_id e, pr_product_id = pid,
                pr_quantity = q, pr_unit_price_cents = price_cents p,
                pr_total_cents = price_cents p * q,
                pr_new_balance_cents = b - price_cents p * q\<rparr>"
proof -
  let ?d' = "purchased e d u p q crid b"
  obtain p' rest where items: "join_items ?d' (new_order_id e)
      = (placed_item e pid q (price_cents p), p') # rest"
    using join_items_purchased [OF fk new_order prod] by blast
  have wallet: "find (\<lambda>w. w_user_id w = u) (wallets d) \<noteq> None"
    using bal by (auto simp: conn_defs split: option.splits)
  have bal': "get_wallet_balance (connect ?d') u = Inr (b - price_cents p * q)"
    using wallet by (auto simp: conn_defs purchased_def find_set_balance)
  have "find (\<lambda>row. o_order_id row = new_order_id e) (orders d) = None"
    using new_order by (force simp: find_None_iff image_iff)
  then have order: "find (\<lambda>row. o_order_id row = new_order_id e) (orders ?d')
      = Some (placed_order e u (price_cents p * q))"
    by (simp add: purchased_def find_snoc placed_order_def)
  have view: "view (connect ?d') = ?d'"
    by (simp add: connect_def)
  show ?thesis
    using items bal' order
    by (simp add: purchase_replay_def view purchase_row_def new_order_id_def placed_item_def
        placed_order_def)
qed

text \<open>
  Claim C1. If a call of \<open>add_funds\<close> (of \<open>purchase\<close>) succeeds, its request id is in
  the ledger afterwards, and a second call with that request id returns the same response
  as the first (the same \<open>added_cents\<close> and \<open>tx_id\<close>; the same \<open>order_id\<close>,
  \<open>total_cents\<close>, \<open>quantity\<close> and \<open>unit_price_cents\<close>) and leaves the database as
  the first call left it. For \<open>purchase\<close> the state before the first call satisfies the
  foreign key of order_items to orders, which the store enforces.
\<close>

theorem idempotence:
  "(add_funds e d user_id amount_cents source client_request_id = (d1, Inr r) \<and>
    0 < amount_cents' \<longrightarrow>
      get_ledger_by_client_request (connect d1) client_request_id \<noteq> None \<and>
      add_funds e' d1 user_id amount_cents' source' client_request_id = (d1, Inr r)) \<and>
   (order_items_fk d \<and>
    purchase e d user_id pid quantity client_request_id = (d2, Inr r2) \<and>
    0 < quantity' \<longrightarrow>
      get_ledger_by_client_request (connect d2) client_request_id \<noteq> None \<and>
      purchase e' d2 user_id pid' quantity' client_request_id = (d2, Inr r2))"
proof (intro conjI impI)
  assume a: "add_funds e d user_id amount_cents source client_request_id = (d1, Inr r) \<and>
    0 < amount_cents'"
  then have first: "add_funds e d user_id amount_cents source client_request_id = (d1, Inr r)"
    and pos: "0 < amount_cents'"
    by simp_all
  from add_funds_success_cases [OF first]
  have user: "ensure_user_exists (connect d) user_id = Inr ()"
    and cases: "(\<exists>existing b. get_ledger_by_client_request (connect d) client_request_id
                    = Some existing \<and>
             get_wallet_balance (connect d) user_id = Inr b \<and> d1 = d \<and>
             r = \<lparr>af_user_id = user_id, af_added_cents = l_amount_cents existing,
                   af_new_balance_cents = b, af_tx_id = l_tx_id existing\<rparr>) \<or>
          (get_ledger_by_client_request (connect d) client_request_id = None \<and>
           (\<exists>b. get_wallet_balance (connect d) user_id = Inr b \<and>
             d1 = d\<lparr>wallets := set_balance user_id (b + amount_cents) (wallets d),
                     ledger := ledger d @
                       [topup_row e user_id amount_cents source client_request_id]\<rparr> \<and>
             r = \<lparr>af_user_id = user_id, af_added_cents = amount_cents,
                   af_new_balance_cents = b + amount_cents, af_tx_id = new_tx_id e\<rparr>))"
    by simp_all
  from cases
  have "get_ledger_by_client_request (connect d1) client_request_id \<noteq> None \<and>
      add_funds e' d1 user_id amount_cents' source' client_request_id = (d1, Inr r)"
  proof (elim disjE exE conjE)
    fix existing b
    assume "get_ledger_by_client_request (connect d) client_request_id = Some existing"
      "get_wallet_balance (connect d) user_id = Inr b" "d1 = d"
      "r = \<lparr>af_user_id = user_id, af_added_cents = l_amount_cents existing,
            af_new_balance_cents = b, af_tx_id = l_tx_id existing\<rparr>"
    then show ?thesis
      using add_funds_replay_eq [OF pos user, of client_request_id existing b e' source']
      by simp
  next
    fix b
    assume fresh: "get_ledger_by_client_request (connect d) client_request_id = None"
      and bal: "get_wallet_balance (connect d) user_id = Inr b"
      and d1: "d1 = d\<lparr>wallets := set_balance user_id (b + amount_cents) (wallets d),
                     ledger := ledger d @
                       [topup_row e user_id amount_cents source client_request_id]\<rparr>"
      and r: "r = \<lparr>af_user_id = user_id, af_added_cents = amount_cents,
                   af_new_balance_cents = b + amount_cents, af_tx_id = new_tx_id e\<rparr>"
    have user1: "ensure_user_exists (connect d1) user_id = Inr ()"
      using user by (simp add: d1 conn_defs)
    have recorded: "get_ledger_by_client_request (connect d1) client_request_id
        = Some (topup_row e user_id amount_cents source client_request_id)"
      using fresh by (simp add: d1 conn_defs find_snoc topup_row_def)
    have wallet: "find (\<lambda>w. w_user_id w = user_id) (wallets d) \<noteq> None"
      using bal by (auto simp: conn_defs split: option.splits)
    have bal1: "get_wallet_balance (connect d1) user_id = Inr (b + amount_cents)"
      using wallet by (auto simp: d1 conn_defs find_set_balance)
    show ?thesis
      using add_funds_replay_eq [OF pos user1 recorded bal1, of e' source'] recorded
      by (simp add: r topup_row_def)
  qed
  then show "get_ledger_by_client_request (connect d1) client_request_id \<noteq> None"
    and "add_funds e' d1 user_id amount_cents' source' client_request_id = (d1, Inr r)"
    by simp_all
next
  assume a: "order_items_fk d \<and>
    purchase e d user_id pid quantity client_request_id = (d2, Inr r2) \<and> 0 < quantity'"
  then have fk: "order_items_fk d"
    and first: "purchase e d user_id pid quantity client_request_id = (d2, Inr r2)"
    and pos: "0 < quantity'"
    by simp_all
  have "get_ledger_by_client_request (connect d2) client_request_id \<noteq> None \<and>
      purchase e' d2 user_id pid' quantity' client_request_id = (d2, Inr r2)"
  proof (cases "get_ledger_by_client_request (connect d) client_request_id")
    case (Some existing)
    from purchase_replay_success [OF first Some]
    have user: "ensure_user_exists (connect d) user_id = Inr ()" and same: "d2 = d"
      and replay: "purchase_replay (connect d) user_id existing = Inr r2"
      by simp_all
    show ?thesis
      using purchase_replay_eq [OF pos user Some, of e' pid'] replay Some same by simp
  next
    case None
    from purchase_fresh_success [OF first None]
    obtain p b where user: "ensure_user_exists (connect d) user_id = Inr ()"
      and prod: "find (\<lambda>p. product_id p = pid) (products d) = Some p"
      and bal: "get_wallet_balance (connect d) user_id = Inr b"
      and new_order: "new_order_id e \<notin> set (map o_order_id (orders d))"
      and d2: "d2 = purchased e d user_id p quantity client_request_id b"
      and r2: "r2 = \<lparr>pr_user_id = user_id, pr_order_id = new_order_id e, pr_product_id = pid,
                   pr_quantity = quantity, pr_unit_price_cents = price_cents p,
                   pr_total_cents = price_cents p * quantity,
                   pr_new_balance_cents = b - price_cents p * quantity\<rparr>"
      by blast
    have user2: "ensure_user_exists (connect d2) user_id = Inr ()"
      using user by (simp add: d2 conn_defs users_purchased)
    have recorded: "get_ledger_by_client_request (connect d2) client_request_id
      = Some (purchase_row e user_id (product_id p) quantity (price_cents p * quantity)
                client_request_id)"
      unfolding d2 by (rule ledger_lookup_purchased [OF None])
    have replay: "purchase_replay (connect d2) user_id
           (purchase_row e user_id (product_id p) quantity (price_cents p * quantity)
              client_request_id) = Inr r2"
      unfolding d2 r2 by (rule replay_of_purchased [OF fk new_order prod bal])
    show ?thesis
      using purchase_replay_eq [OF pos user2 recorded, of e' pid'] replay recorded by simp
  qed
  then show "get_ledger_by_client_request (connect d2) client_request_id \<noteq> None"
    and "purchase e' d2 user_id pid' quantity' client_request_id = (d2, Inr r2)"
    by simp_all
qed

text \<open>Scenario B and its top-up counterpart: the same call twice.\<close>

theorem idempotence_witness:
  "add_funds draw1 shop ''u_1002'' 5000 ''external'' ''topup-1'' =
     (shop_after_topup,
      Inr \<lparr>af_user_id = ''u_1002'', af_added_cents = 5000, af_new_balance_cents = 6200,
           af_tx_id = ''tx_9b1d''\<rparr>) \<and>
   add_funds draw2 shop_after_topup ''u_1002'' 5000 ''external'' ''topup-1'' =
     (shop_after_topup,
      Inr \<lparr>af_user_id = ''u_1002'', af_added_cents = 5000, af_new_balance_cents = 6200,
           af_tx_id = ''tx_9b1d''\<rparr>) \<and>
   order_items_fk shop \<and>
   purchase draw1 shop ''u_1002'' ''p_2001'' 1 ''req-1'' =
     (shop_after_purchase,
      Inr \<lparr>pr_user_id = ''u_1002'', pr_order_id = ''o_3f2a9c01d4'', pr_product_id = ''p_2001'',
           pr_quantity = 1, pr_unit_price_cents = 899, pr_total_cents = 899,
           pr_new_balance_cents = 301\<rparr>) \<and>
   purchase draw2 shop_after_purchase ''u_1002'' ''p_2001'' 1 ''req-1'' =
     (shop_after_purchase,
      Inr \<lparr>pr_user_id = ''u_1002'', pr_order_id = ''o_3f2a9c01d4'', pr_product_id = ''p_2001'',
           pr_quantity = 1, pr_unit_price_cents = 899, pr_total_cents = 899,
           pr_new_balance_cents = 301\<rparr>)"
proof -
  have topup: "add_funds draw1 shop ''u_1002'' 5000 ''external'' ''topup-1'' =
     (shop_after_topup,
      Inr \<lparr>af_user_id = ''u_1002'', af_added_cents = 5000, af_new_balance_cents = 6200,
           af_tx_id = ''tx_9b1d''\<rparr>)"
    unfolding shop_after_topup_def
    by (simp add: add_funds_def add_funds_try_def conn_defs shop_defs prod_eq_iff Let_def)
  have fk: "order_items_fk shop"
    by (simp add: order_items_fk_def shop_defs)
  have bought: "purchase draw1 shop ''u_1002'' ''p_2001'' 1 ''req-1'' =
     (shop_after_purchase,
      Inr \<lparr>pr_user_id = ''u_1002'', pr_order_id = ''o_3f2a9c01d4'', pr_product_id = ''p_2001'',
           pr_quantity = 1, pr_unit_price_cents = 899, pr_total_cents = 899,
           pr_new_balance_cents = 301\<rparr>)"
    unfolding shop_after_purchase_def
    by (simp add: purchase_defs conn_defs shop_defs prod_eq_iff Let_def)
  show ?thesis
    using idempotence [where e = draw1 and d = shop and user_id = "''u_1002''"
        and amount_cents = 5000 and source = "''external''"
        and client_request_id = "''topup-1''" and ?d1.0 = shop_after_topup
        and r = "\<lparr>af_user_id = ''u_1002'', af_added_cents = 5000,
                   af_new_balance_cents = 6200, af_tx_id = ''tx_9b1d''\<rparr>"
        and amount_cents' = 5000 and e' = draw2 and source' = "''external''"]
      idempotence [where e = draw1 and d = shop and user_id = "''u_1002''"
        and pid = "''p_2001''" and quantity = 1 and client_request_id = "''req-1''"
        and ?d2.0 = shop_after_purchase
        and ?r2.0 = "\<lparr>pr_user_id = ''u_1002'', pr_order_id = ''o_3f2a9c01d4'',
                   pr_product_id = ''p_2001'', pr_quantity = 1, pr_unit_price_cents = 899,
                   pr_total_cents = 899, pr_new_balance_cents = 301\<rparr>"
        and quantity' = 1 and e' = draw2 and pid' = "''p_2001''"]
      topup fk bought
    by simp
qed

section \<open>The checks of purchase and their order\<close>

lemma purchase_try_fresh_result:
  assumes "get_ledger_by_client_request (connect d) crid = None"
    and "0 < q"
  shows "snd (purchase e d u pid q crid) = snd (purchase_try e (connect d) u pid q crid)"
  using assms by (simp add: purchase_def split: prod.splits sum.splits)

lemma purchase_normal_not_unknown_user:
  "snd (purchase_normal e c u pid q crid) \<noteq> Inl UnknownUser \<and>
   snd (purchase_normal e c u pid q crid) \<noteq> Inl InvalidQuantity"
  by (auto simp: purchase_normal_def conn_defs Let_def split: option.splits sum.splits if_splits)

lemma purchase_normal_checks:
  assumes "find (\<lambda>p. product_id p = pid) (products (view c)) = Some p"
  shows "snd (purchase_normal e c u pid q crid) \<noteq> Inl UnknownProduct"
    and "snd (purchase_normal e c u pid q crid) = Inl InsufficientInventory \<longleftrightarrow> inventory p < q"
    and "q \<le> inventory p \<Longrightarrow> get_wallet_balance c u = Inr b \<Longrightarrow>
         snd (purchase_normal e c u pid q crid) = Inl InsufficientFunds
           \<longleftrightarrow> b < price_cents p * q"
  using assms
  by (auto simp: purchase_normal_def conn_defs Let_def split: option.splits sum.splits if_splits)

lemma purchase_normal_no_write:
  assumes "snd (purchase_normal e c u pid q crid) \<in>
      {Inl UnknownProduct, Inl InsufficientInventory, Inl InsufficientFunds}"
  shows "fst (purchase_normal e c u pid q crid) = c"
  using assms
  by (auto simp: purchase_normal_def conn_defs Let_def split: option.splits sum.splits if_splits)

lemma purchase_try_fresh:
  assumes "get_ledger_by_client_request c crid = None"
  shows "purchase_try e c u pid q crid =
           (case ensure_user_exists c u of
              Inl err \<Rightarrow> (c, Inl err)
            | Inr _ \<Rightarrow> purchase_normal e c u pid q crid)"
  using assms by (simp add: purchase_try_def split: sum.splits)

lemma ensure_user_exists_cases:
  "ensure_user_exists c u = Inl UnknownUser \<or> ensure_user_exists c u = Inr ()"
  by (simp add: ensure_user_exists_def split: option.splits)

lemma get_product_row:
  "snd (get_product d pid) = Inr p \<longleftrightarrow> find (\<lambda>p. product_id p = pid) (products d) = Some p"
  "snd (get_product d pid) = Inl UnknownProduct
     \<longleftrightarrow> find (\<lambda>p. product_id p = pid) (products d) = None"
  by (simp_all add: get_product_def get_product_try_def connect_def split: option.splits)

text \<open>
  Claim C6. For a request id that is not in the ledger, \<open>purchase\<close> fails with
  InvalidQuantity exactly when the quantity is not positive; otherwise with UnknownUser
  exactly when the user does not exist; otherwise with UnknownProduct exactly when the
  product does not exist; otherwise with InsufficientInventory exactly when the stock is
  below the quantity, whatever the wallet holds (the wallet is not yet read); otherwise
  with InsufficientFunds exactly when the balance is below price times quantity. In these
  failing cases no write is issued: the connection is never opened for a bad quantity,
  and the block leaves it as it found it in the four other cases.
\<close>

theorem purchase_failure_order:
  assumes fresh: "get_ledger_by_client_request (connect d) client_request_id = None"
  shows "(snd (purchase e d user_id pid quantity client_request_id) = Inl InvalidQuantity
            \<longleftrightarrow> quantity \<le> 0) \<and>
         (0 < quantity \<longrightarrow>
            (snd (purchase e d user_id pid quantity client_request_id) = Inl UnknownUser
               \<longleftrightarrow> ensure_user_exists (connect d) user_id = Inl UnknownUser)) \<and>
         (0 < quantity \<and> ensure_user_exists (connect d) user_id = Inr () \<longrightarrow>
            (snd (purchase e d user_id pid quantity client_request_id) = Inl UnknownProduct
               \<longleftrightarrow> snd (get_product d pid) = Inl UnknownProduct)) \<and>
         (0 < quantity \<and> ensure_user_exists (connect d) user_id = Inr () \<and>
          snd (get_product d pid) = Inr p \<longrightarrow>
            (snd (purchase e d user_id pid quantity client_request_id) = Inl InsufficientInventory
               \<longleftrightarrow> inventory p < quantity)) \<and>
         (0 < quantity \<and> ensure_user_exists (connect d) user_id = Inr () \<and>
          snd (get_product d pid) = Inr p \<and> quantity \<le> inventory p \<and>
          get_wallet_balance (connect d) user_id = Inr bal \<longrightarrow>
            (snd (purchase e d user_id pid quantity client_request_id) = Inl InsufficientFunds
               \<longleftrightarrow> bal < price_cents p * quantity)) \<and>
         (quantity \<le> 0 \<longrightarrow>
            purchase e d user_id pid quantity client_request_id = (d, Inl InvalidQuantity)) \<and>
         (0 < quantity \<and>
          snd (purchase e d user_id pid quantity client_request_id) \<in>
            {Inl UnknownUser, Inl UnknownProduct, Inl InsufficientInventory,
             Inl InsufficientFunds} \<longrightarrow>
            fst (purchase_try e (connect d) user_id pid quantity client_request_id)
              = connect d)"
proof -
  let ?res = "snd (purchase e d user_id pid quantity client_request_id)"
  let ?block = "purchase_try e (connect d) user_id pid quantity client_request_id"
  let ?normal = "purchase_normal e (connect d) user_id pid quantity client_request_id"
  have view: "view (connect d) = d"
    by (simp add: connect_def)
  have res: "?res = snd ?block" if "0 < quantity"
    using purchase_try_fresh_result [OF fresh that] .
  have unknown_user: "?block = (connect d, Inl UnknownUser)"
    if "ensure_user_exists (connect d) user_id = Inl UnknownUser"
    using that by (simp add: purchase_try_fresh [OF fresh])
  have known_user: "?block = ?normal" if "ensure_user_exists (connect d) user_id = Inr ()"
    using that by (simp add: purchase_try_fresh [OF fresh])
  note normal_other = purchase_normal_not_unknown_user
    [of e "connect d" user_id pid quantity client_request_id]
  have c1: "?res = Inl InvalidQuantity \<longleftrightarrow> quantity \<le> 0"
  proof (cases "quantity \<le> 0")
    case True
    then show ?thesis by (simp add: purchase_def)
  next
    case False
    then have r: "?res = snd ?block" using res by simp
    have "snd ?block \<noteq> Inl InvalidQuantity"
    proof (cases "ensure_user_exists (connect d) user_id = Inr ()")
      case True
      then show ?thesis using known_user normal_other by simp
    next
      case False
      then have "ensure_user_exists (connect d) user_id = Inl UnknownUser"
        using ensure_user_exists_cases [of "connect d" user_id] by simp
      then show ?thesis using unknown_user by simp
    qed
    then show ?thesis using r False by simp
  qed
  have c2: "?res = Inl UnknownUser \<longleftrightarrow>
      ensure_user_exists (connect d) user_id = Inl UnknownUser" if q: "0 < quantity"
  proof (cases "ensure_user_exists (connect d) user_id = Inr ()")
    case True
    then show ?thesis using res [OF q] known_user normal_other by simp
  next
    case False
    then have "ensure_user_exists (connect d) user_id = Inl UnknownUser"
      using ensure_user_exists_cases [of "connect d" user_id] by simp
    then show ?thesis using res [OF q] unknown_user by simp
  qed
  have c3: "?res = Inl UnknownProduct \<longleftrightarrow> snd (get_product d pid) = Inl UnknownProduct"
    if q: "0 < quantity" and u: "ensure_user_exists (connect d) user_id = Inr ()"
  proof (cases "find (\<lambda>p. product_id p = pid) (products d)")
    case None
    then have "snd ?normal = Inl UnknownProduct"
      by (simp add: purchase_normal_def view)
    then show ?thesis
      using res [OF q] known_user [OF u] None by (simp add: get_product_row)
  next
    case (Some row)
    then have "snd ?normal \<noteq> Inl UnknownProduct"
      using purchase_normal_checks(1) [of pid "connect d" row] by (simp add: view)
    then show ?thesis
      using res [OF q] known_user [OF u] Some by (simp add: get_product_row)
  qed
  have c4: "?res = Inl InsufficientInventory \<longleftrightarrow> inventory p < quantity"
    if q: "0 < quantity" and u: "ensure_user_exists (connect d) user_id = Inr ()"
      and p: "snd (get_product d pid) = Inr p"
  proof -
    have row: "find (\<lambda>p. product_id p = pid) (products (view (connect d))) = Some p"
      using p by (simp add: get_product_row view)
    show ?thesis
      using res [OF q] known_user [OF u] purchase_normal_checks(2) [OF row] by simp
  qed
  have c5: "?res = Inl InsufficientFunds \<longleftrightarrow> bal < price_cents p * quantity"
    if q: "0 < quantity" and u: "ensure_user_exists (connect d) user_id = Inr ()"
      and p: "snd (get_product d pid) = Inr p" and s: "quantity \<le> inventory p"
      and b: "get_wallet_balance (connect d) user_id = Inr bal"
  proof -
    have row: "find (\<lambda>p. product_id p = pid) (products (view (connect d))) = Some p"
      using p by (simp add: get_product_row view)
    show ?thesis
      using res [OF q] known_user [OF u] purchase_normal_checks(3) [OF row s b] by simp
  qed
  have c6: "purchase e d user_id pid quantity client_request_id = (d, Inl InvalidQuantity)"
    if "quantity \<le> 0"
    using that by (simp add: purchase_def)
  have c7: "fst ?block = connect d"
    if q: "0 < quantity" and r: "?res \<in> {Inl UnknownUser, Inl UnknownProduct,
      Inl InsufficientInventory, Inl InsufficientFunds}"
  proof (cases "ensure_user_exists (connect d) user_id = Inr ()")
    case True
    have "snd ?normal = ?res"
      using res [OF q] known_user [OF True] by simp
    then have "snd ?normal \<in> {Inl UnknownProduct, Inl InsufficientInventory,
        Inl InsufficientFunds}"
      using r normal_other by simp
    then show ?thesis
      using purchase_normal_no_write known_user [OF True] by simp
  next
    case False
    then have "ensure_user_exists (connect d) user_id = Inl UnknownUser"
      using ensure_user_exists_cases [of "connect d" user_id] by simp
    then show ?thesis using unknown_user by simp
  qed
  show ?thesis
  proof (intro conjI impI)
    show "?res = Inl InvalidQuantity \<longleftrightarrow> quantity \<le> 0" by (rule c1)
  next
    assume "0 < quantity"
    then show "?res = Inl UnknownUser \<longleftrightarrow>
      ensure_user_exists (connect d) user_id = Inl UnknownUser" by (rule c2)
  next
    assume "0 < quantity \<and> ensure_user_exists (connect d) user_id = Inr ()"
    then show "?res = Inl UnknownProduct \<longleftrightarrow> snd (get_product d pid) = Inl UnknownProduct"
      using c3 by blast
  next
    assume "0 < quantity \<and> ensure_user_exists (connect d) user_id = Inr () \<and>
          snd (get_product d pid) = Inr p"
    then show "?res = Inl InsufficientInventory \<longleftrightarrow> inventory p < quantity"
      using c4 by blast
  next
    assume "0 < quantity \<and> ensure_user_exists (connect d) user_id = Inr () \<and>
          snd (get_product d pid) = Inr p \<and> quantity \<le> inventory p \<and>
          get_wallet_balance (connect d) user_id = Inr bal"
    then show "?res = Inl InsufficientFunds \<longleftrightarrow> bal < price_cents p * quantity"
      using c5 by blast
  next
    assume "quantity \<le> 0"
    then show "purchase e d user_id pid quantity client_request_id = (d, Inl InvalidQuantity)"
      by (rule c6)
  next
    assume "0 < quantity \<and> ?res \<in> {Inl UnknownUser, Inl UnknownProduct,
      Inl InsufficientInventory, Inl InsufficientFunds}"
    then show "fst ?block = connect d"
      using c7 by blast
  qed
qed

text \<open>Scenario D: no lamp in stock; the buyer holds 6200 cents, the lamp costs 3499.\<close>

theorem purchase_failure_order_witness:
  "get_ledger_by_client_request (connect shop_after_topup) ''req-9'' = None \<and>
   get_wallet_balance (connect shop_after_topup) ''u_1002'' = Inr 6200 \<and>
   snd (get_product shop_after_topup ''p_2010'') = Inr sold_out_lamp \<and>
   snd (purchase draw2 shop_after_topup ''u_1002'' ''p_2010'' 1 ''req-9'')
     = Inl InsufficientInventory \<and>
   fst (purchase_try draw2 (connect shop_after_topup) ''u_1002'' ''p_2010'' 1 ''req-9'')
     = connect shop_after_topup"
proof -
  have fresh: "get_ledger_by_client_request (connect shop_after_topup) ''req-9'' = None"
    by (simp add: shop_after_topup_eq conn_defs shop_defs topup_row_def)
  have user: "ensure_user_exists (connect shop_after_topup) ''u_1002'' = Inr ()"
    by (simp add: shop_after_topup_eq conn_defs shop_defs)
  have bal: "get_wallet_balance (connect shop_after_topup) ''u_1002'' = Inr 6200"
    by (simp add: shop_after_topup_eq conn_defs shop_defs)
  have lamp: "snd (get_product shop_after_topup ''p_2010'') = Inr sold_out_lamp"
    by (simp add: get_product_def get_product_try_def shop_after_topup_eq conn_defs shop_defs)
  have stock: "inventory sold_out_lamp = 0"
    by (simp add: sold_out_lamp_def)
  note order = purchase_failure_order [OF fresh, where e = draw2 and user_id = "''u_1002''"
      and pid = "''p_2010''" and quantity = 1 and p = sold_out_lamp and bal = 6200]
  have res: "snd (purchase draw2 shop_after_topup ''u_1002'' ''p_2010'' 1 ''req-9'')
     = Inl InsufficientInventory"
    using order user lamp stock by simp
  have "fst (purchase_try draw2 (connect shop_after_topup) ''u_1002'' ''p_2010'' 1 ''req-9'')
     = connect shop_after_topup"
    using order res by simp
  with fresh bal lamp res show ?thesis by simp
qed

section \<open>Invariants of every sequence of calls\<close>

lemma reads_unchanged:
  "fst (get_balance d u) = d" "fst (search_products d query) = d"
  "fst (get_product d pid) = d" "fst (get_orders d u limit) = d"
  by (simp_all add: get_balance_def get_balance_try_def get_product_def get_product_try_def
      search_products_def search_products_try_def get_orders_def get_orders_try_def
      conn_defs Let_def split: sum.splits option.splits)

text \<open>What a call can do to the database: nothing, a first-time top-up, or a first-time
  purchase.\<close>

lemma exec_effect:
  "exec d c = d \<or>
   (\<exists>e u a s crid b. c = AddFunds e u a s crid \<and> 0 < a \<and>
      get_wallet_balance (connect d) u = Inr b \<and>
      exec d c = d\<lparr>wallets := set_balance u (b + a) (wallets d),
                     ledger := ledger d @ [topup_row e u a s crid]\<rparr>) \<or>
   (\<exists>e u pid q crid p b. c = Purchase e u pid q crid \<and> 0 < q \<and>
      find (\<lambda>p. product_id p = pid) (products d) = Some p \<and>
      get_wallet_balance (connect d) u = Inr b \<and>
      q \<le> inventory p \<and> price_cents p * q \<le> b \<and>
      exec d c = purchased e d u p q crid b \<and>
      snd (purchase e d u pid q crid) =
        Inr \<lparr>pr_user_id = u, pr_order_id = new_order_id e, pr_product_id = pid,
             pr_quantity = q, pr_unit_price_cents = price_cents p,
             pr_total_cents = price_cents p * q,
             pr_new_balance_cents = b - price_cents p * q\<rparr>)"
proof (cases c)
  case (AddFunds e u a s crid)
  obtain d' res where call: "add_funds e d u a s crid = (d', res)"
    by (cases "add_funds e d u a s crid")
  from add_funds_effect [OF call] show ?thesis
    using AddFunds call by auto
next
  case (Purchase e u pid q crid)
  obtain d' res where call: "purchase e d u pid q crid = (d', res)"
    by (cases "purchase e d u pid q crid")
  from purchase_effect [OF call] show ?thesis
    using Purchase call by auto
qed (simp_all add: reads_unchanged)

lemma balance_set_balance:
  "get_wallet_balance (connect (d\<lparr>wallets := set_balance u v (wallets d), ledger := l\<rparr>)) u' =
     (case get_wallet_balance (connect d) u' of
        Inl err \<Rightarrow> Inl err
      | Inr b \<Rightarrow> Inr (if u' = u then v else b))"
  by (simp add: get_wallet_balance_def connect_def find_set_balance split: option.splits)

lemma balance_purchased:
  "get_wallet_balance (connect (purchased e d u p q crid b)) u' =
     (case get_wallet_balance (connect d) u' of
        Inl err \<Rightarrow> Inl err
      | Inr b' \<Rightarrow> Inr (if u' = u then b - price_cents p * q else b'))"
  by (simp add: get_wallet_balance_def connect_def purchased_def find_set_balance
      split: option.splits)

lemma ledger_sum_snoc:
  "ledger d' = ledger d @ [row] \<Longrightarrow>
   ledger_sum d' u = ledger_sum d u + (if l_user_id row = u then l_amount_cents row else 0)"
  by (simp add: ledger_sum_def)

lemma exec_balance:
  assumes "get_wallet_balance (connect d) u = Inr b"
  shows "get_wallet_balance (connect (exec d c)) u
           = Inr (b + (ledger_sum (exec d c) u - ledger_sum d u))"
  using exec_effect [of d c]
proof (elim disjE exE conjE)
  assume "exec d c = d"
  then show ?thesis using assms by simp
next
  fix e u' a s crid b'
  assume bal: "get_wallet_balance (connect d) u' = Inr b'"
    and eq: "exec d c = d\<lparr>wallets := set_balance u' (b' + a) (wallets d),
                     ledger := ledger d @ [topup_row e u' a s crid]\<rparr>"
  have "ledger_sum (exec d c) u
      = ledger_sum d u + (if u' = u then a else 0)"
    using ledger_sum_snoc [of "exec d c" d "topup_row e u' a s crid" u]
    by (simp add: eq topup_row_def)
  then show ?thesis
    using assms bal by (auto simp: eq balance_set_balance)
next
  fix e u' pid q crid p b'
  assume bal: "get_wallet_balance (connect d) u' = Inr b'"
    and eq: "exec d c = purchased e d u' p q crid b'"
  have "ledger_sum (exec d c) u
      = ledger_sum d u + (if u' = u then - (price_cents p * q) else 0)"
    using ledger_sum_snoc [of "exec d c" d
        "purchase_row e u' (product_id p) q (price_cents p * q) crid" u]
    by (simp add: eq purchased_def purchase_row_def)
  then show ?thesis
    using assms bal by (auto simp: eq balance_purchased)
qed

lemma run_Cons: "run d (c # calls) = run (exec d c) calls"
  by (simp add: run_def)

lemma run_balance:
  assumes "get_wallet_balance (connect d) u = Inr b"
  shows "get_wallet_balance (connect (run d calls)) u
           = Inr (b + (ledger_sum (run d calls) u - ledger_sum d u))"
  using assms
proof (induction calls arbitrary: d b)
  case Nil
  then show ?case by (simp add: run_def)
next
  case (Cons c calls)
  from exec_balance [OF Cons.prems, of c]
  have step: "get_wallet_balance (connect (exec d c)) u
           = Inr (b + (ledger_sum (exec d c) u - ledger_sum d u))" .
  from Cons.IH [OF step] show ?case
    by (simp add: run_Cons)
qed

lemma list_all_set_balance:
  "list_all (\<lambda>w. 0 \<le> w_balance_cents w) ws \<Longrightarrow> 0 \<le> v \<Longrightarrow>
   list_all (\<lambda>w. 0 \<le> w_balance_cents w) (set_balance u v ws)"
  by (induction ws) (auto simp: set_balance_def)

lemma list_all_set_inventory:
  "list_all (\<lambda>p. 0 \<le> inventory p) ps \<Longrightarrow> 0 \<le> n \<Longrightarrow>
   list_all (\<lambda>p. 0 \<le> inventory p) (set_inventory pid n ps)"
  by (induction ps) (auto simp: set_inventory_def)

lemma balance_non_negative:
  "non_negative d \<Longrightarrow> get_wallet_balance (connect d) u = Inr b \<Longrightarrow> 0 \<le> b"
  by (auto simp: non_negative_def get_wallet_balance_def connect_def list_all_iff
      split: option.splits dest!: find_in_set)

lemma exec_non_negative:
  assumes "non_negative d"
  shows "non_negative (exec d c)"
  using exec_effect [of d c]
proof (elim disjE exE conjE)
  assume "exec d c = d"
  then show ?thesis using assms by simp
next
  fix e u a s crid b
  assume "0 < a" and bal: "get_wallet_balance (connect d) u = Inr b"
    and eq: "exec d c = d\<lparr>wallets := set_balance u (b + a) (wallets d),
                     ledger := ledger d @ [topup_row e u a s crid]\<rparr>"
  have "0 \<le> b + a"
    using balance_non_negative [OF assms bal] \<open>0 < a\<close> by simp
  then show ?thesis
    using assms by (simp add: eq non_negative_def list_all_set_balance)
next
  fix e u pid q crid p b
  assume stock: "q \<le> inventory p" and funds: "price_cents p * q \<le> b"
    and eq: "exec d c = purchased e d u p q crid b"
  show ?thesis
    using assms stock funds
    by (simp add: eq purchased_def non_negative_def list_all_set_balance list_all_set_inventory)
qed

lemma run_non_negative:
  "non_negative d \<Longrightarrow> non_negative (run d calls)"
  by (induction calls arbitrary: d) (simp_all add: run_def exec_non_negative)

text \<open>
  Claim C2. For every user with a wallet and every sequence of calls of the six tools,
  the balance afterwards is the balance before plus the sum of the ledger amounts the
  calls have written for that user. Step by step: a call either changes nothing at all,
  or it appends exactly one ledger row and moves the balance of the row's user by the
  row's amount, which is the positive amount of a top-up (kind TOPUP) or minus the total
  of a purchase (kind PURCHASE); no call changes a balance without such a row.
\<close>

theorem balance_conservation:
  assumes "get_wallet_balance (connect d) user_id = Inr bal"
  shows "get_wallet_balance (connect (run d calls)) user_id
           = Inr (bal + (ledger_sum (run d calls) user_id - ledger_sum d user_id)) \<and>
         (exec d c = d \<or>
          (\<exists>row. ledger (exec d c) = ledger d @ [row] \<and>
             get_wallet_balance (connect (exec d c)) user_id
               = Inr (if l_user_id row = user_id then bal + l_amount_cents row else bal) \<and>
             ((\<exists>e u a s crid. c = AddFunds e u a s crid \<and> l_kind row = ''TOPUP'' \<and>
                 l_amount_cents row = a \<and> 0 < a) \<or>
              (\<exists>e u pid q crid r. c = Purchase e u pid q crid \<and>
                 snd (purchase e d u pid q crid) = Inr r \<and> l_kind row = ''PURCHASE'' \<and>
                 l_amount_cents row = - pr_total_cents r))))"
proof
  show "get_wallet_balance (connect (run d calls)) user_id
           = Inr (bal + (ledger_sum (run d calls) user_id - ledger_sum d user_id))"
    using assms by (rule run_balance)
next
  let ?step = "\<exists>row. ledger (exec d c) = ledger d @ [row] \<and>
             get_wallet_balance (connect (exec d c)) user_id
               = Inr (if l_user_id row = user_id then bal + l_amount_cents row else bal) \<and>
             ((\<exists>e u a s crid. c = AddFunds e u a s crid \<and> l_kind row = ''TOPUP'' \<and>
                 l_amount_cents row = a \<and> 0 < a) \<or>
              (\<exists>e u pid q crid r. c = Purchase e u pid q crid \<and>
                 snd (purchase e d u pid q crid) = Inr r \<and> l_kind row = ''PURCHASE'' \<and>
                 l_amount_cents row = - pr_total_cents r))"
  from exec_effect [of d c] show "exec d c = d \<or> ?step"
  proof (elim disjE exE conjE)
    assume "exec d c = d"
    then show ?thesis by simp
  next
    fix e u a s crid b
    assume c: "c = AddFunds e u a s crid" and a: "0 < a"
      and bal: "get_wallet_balance (connect d) u = Inr b"
      and eq: "exec d c = d\<lparr>wallets := set_balance u (b + a) (wallets d),
                     ledger := ledger d @ [topup_row e u a s crid]\<rparr>"
    have "ledger (exec d c) = ledger d @ [topup_row e u a s crid]"
      by (simp add: eq)
    moreover have "get_wallet_balance (connect (exec d c)) user_id
        = Inr (if l_user_id (topup_row e u a s crid) = user_id
               then bal + l_amount_cents (topup_row e u a s crid) else bal)"
      using assms bal by (auto simp: eq balance_set_balance topup_row_def)
    moreover have "l_kind (topup_row e u a s crid) = ''TOPUP''"
      "l_amount_cents (topup_row e u a s crid) = a"
      by (simp_all add: topup_row_def)
    ultimately have ?step using c a by blast
    then show ?thesis ..
  next
    fix e u pid q crid p b
    assume c: "c = Purchase e u pid q crid"
      and bal: "get_wallet_balance (connect d) u = Inr b"
      and eq: "exec d c = purchased e d u p q crid b"
      and res: "snd (purchase e d u pid q crid) =
        Inr \<lparr>pr_user_id = u, pr_order_id = new_order_id e, pr_product_id = pid,
             pr_quantity = q, pr_unit_price_cents = price_cents p,
             pr_total_cents = price_cents p * q,
             pr_new_balance_cents = b - price_cents p * q\<rparr>"
    let ?row = "purchase_row e u (product_id p) q (price_cents p * q) crid"
    have "ledger (exec d c) = ledger d @ [?row]"
      by (simp add: eq purchased_def)
    moreover have "get_wallet_balance (connect (exec d c)) user_id
        = Inr (if l_user_id ?row = user_id then bal + l_amount_cents ?row else bal)"
      using assms bal by (auto simp: eq balance_purchased purchase_row_def)
    moreover have "l_kind ?row = ''PURCHASE''"
      "l_amount_cents ?row = - pr_total_cents
         \<lparr>pr_user_id = u, pr_order_id = new_order_id e, pr_product_id = pid,
             pr_quantity = q, pr_unit_price_cents = price_cents p,
             pr_total_cents = price_cents p * q,
             pr_new_balance_cents = b - price_cents p * q\<rparr>"
      by (simp_all add: purchase_row_def)
    ultimately have ?step using c res by blast
    then show ?thesis ..
  qed
qed

text \<open>Scenario E followed by scenario A: a top-up of 5000 cents, a balance read and the
  purchase of one cable.\<close>

lemma shop_session:
  "run shop [AddFunds draw1 ''u_1002'' 5000 ''external'' ''topup-1'',
             GetBalance ''u_1002'',
             Purchase draw2 ''u_1002'' ''p_2001'' 1 ''req-1'']
   = shop\<lparr>wallets := [\<lparr>w_user_id = ''u_1002'', w_balance_cents = 5301\<rparr>,
                        \<lparr>w_user_id = ''u_1003'', w_balance_cents = 500\<rparr>],
          products := [usb_cable\<lparr>inventory := 24\<rparr>, sold_out_lamp, ethernet_cable],
          orders := [placed_order draw2 ''u_1002'' 899],
          order_items := [placed_item draw2 ''p_2001'' 1 899],
          ledger := [topup_row draw1 ''u_1002'' 5000 ''external'' ''topup-1'',
                     purchase_row draw2 ''u_1002'' ''p_2001'' 1 899 ''req-1'']\<rparr>"
  by (simp add: run_def add_funds_def add_funds_try_def purchase_defs get_balance_def
      get_balance_try_def conn_defs shop_defs row_defs Let_def)

theorem balance_conservation_witness:
  "get_wallet_balance (connect shop) ''u_1002'' = Inr 1200 \<and>
   ledger_sum shop ''u_1002'' = 0 \<and>
   ledger_sum (run shop [AddFunds draw1 ''u_1002'' 5000 ''external'' ''topup-1'',
                         GetBalance ''u_1002'',
                         Purchase draw2 ''u_1002'' ''p_2001'' 1 ''req-1'']) ''u_1002'' = 4101 \<and>
   get_wallet_balance
     (connect (run shop [AddFunds draw1 ''u_1002'' 5000 ''external'' ''topup-1'',
                         GetBalance ''u_1002'',
                         Purchase draw2 ''u_1002'' ''p_2001'' 1 ''req-1''])) ''u_1002''
     = Inr 5301"
proof -
  let ?calls = "[AddFunds draw1 ''u_1002'' 5000 ''external'' ''topup-1'',
                 GetBalance ''u_1002'',
                 Purchase draw2 ''u_1002'' ''p_2001'' 1 ''req-1'']"
  have h: "get_wallet_balance (connect shop) ''u_1002'' = Inr 1200"
    by (simp add: conn_defs shop_defs)
  have before: "ledger_sum shop ''u_1002'' = 0"
    by (simp add: ledger_sum_def shop_def)
  have after: "ledger_sum (run shop ?calls) ''u_1002'' = 4101"
    by (simp add: shop_session ledger_sum_def topup_row_def purchase_row_def)
  show ?thesis
    using balance_conservation [OF h, of ?calls "GetBalance ''u_1002''"] h before after
    by simp
qed

text \<open>
  Claim C3. From a state in which every wallet balance and every inventory is
  non-negative, no sequence of calls of the six tools reaches a state with a negative
  balance or inventory. In particular \<open>purchase\<close> changes the database only when the
  balance covers the total and the stock covers the quantity, and \<open>add_funds\<close> never
  lowers a balance.
\<close>

theorem non_negativity:
  assumes "non_negative d"
  shows "non_negative (run d calls) \<and>
         (fst (purchase e d user_id pid quantity client_request_id) \<noteq> d \<longrightarrow>
            (\<exists>p bal. snd (get_product d pid) = Inr p \<and>
               get_wallet_balance (connect d) user_id = Inr bal \<and>
               price_cents p * quantity \<le> bal \<and> quantity \<le> inventory p)) \<and>
         (get_wallet_balance (connect d) user_id' = Inr bal' \<longrightarrow>
            (\<exists>bal''. get_wallet_balance
                (connect (fst (add_funds e' d user_id'' amount_cents source client_request_id')))
                user_id' = Inr bal'' \<and> bal' \<le> bal''))"
proof (intro conjI impI)
  show "non_negative (run d calls)"
    using assms by (rule run_non_negative)
next
  assume changed: "fst (purchase e d user_id pid quantity client_request_id) \<noteq> d"
  obtain d' res where call: "purchase e d user_id pid quantity client_request_id = (d', res)"
    by (cases "purchase e d user_id pid quantity client_request_id")
  from purchase_effect [OF call] changed call
  obtain p b where "find (\<lambda>p. product_id p = pid) (products d) = Some p"
    "get_wallet_balance (connect d) user_id = Inr b" "quantity \<le> inventory p"
    "price_cents p * quantity \<le> b"
    by auto
  then show "\<exists>p bal. snd (get_product d pid) = Inr p \<and>
               get_wallet_balance (connect d) user_id = Inr bal \<and>
               price_cents p * quantity \<le> bal \<and> quantity \<le> inventory p"
    by (auto simp: get_product_row)
next
  assume bal: "get_wallet_balance (connect d) user_id' = Inr bal'"
  obtain d' res where call: "add_funds e' d user_id'' amount_cents source client_request_id'
      = (d', res)"
    by (cases "add_funds e' d user_id'' amount_cents source client_request_id'")
  from add_funds_effect [OF call]
  have "\<exists>bal''. get_wallet_balance (connect d') user_id' = Inr bal'' \<and> bal' \<le> bal''"
    using bal by (auto simp: balance_set_balance)
  then show "\<exists>bal''. get_wallet_balance
                (connect (fst (add_funds e' d user_id'' amount_cents source client_request_id')))
                user_id' = Inr bal'' \<and> bal' \<le> bal''"
    by (simp add: call)
qed

theorem non_negativity_witness:
  "non_negative shop \<and>
   non_negative (run shop [AddFunds draw1 ''u_1002'' 5000 ''external'' ''topup-1'',
                           GetBalance ''u_1002'',
                           Purchase draw2 ''u_1002'' ''p_2001'' 1 ''req-1''])"
proof -
  have h: "non_negative shop"
    by (simp add: non_negative_def shop_defs)
  show ?thesis
    using non_negativity [OF h] h by simp
qed

section \<open>The search algorithm\<close>

lemma lower_char_idem: "lower_char (lower_char ch) = lower_char ch"
  by (simp add: lower_char_def Let_def)

lemma lower_idem: "lower (lower s) = lower s"
  by (simp add: lower_def lower_char_idem)

lemma lower_char_wildcard:
  "lower_char ch = CHR ''%'' \<longleftrightarrow> ch = CHR ''%''"
  "lower_char ch = CHR ''_'' \<longleftrightarrow> ch = CHR ''_''"
proof -
  have small: "take_bit 8 ((of_char ch :: nat) + 32) = of_char ch + 32"
    if "(of_char ch :: nat) \<le> 90"
    using that by (simp add: take_bit_nat_eq_self)
  show "lower_char ch = CHR ''%'' \<longleftrightarrow> ch = CHR ''%''"
    using small by (auto simp: lower_char_def Let_def char_of_eq_iff)
  show "lower_char ch = CHR ''_'' \<longleftrightarrow> ch = CHR ''_''"
    using small by (auto simp: lower_char_def Let_def char_of_eq_iff)
qed

lemma like_percent: "like ''%'' s"
  by (induction s) simp_all

lemma like_prefix:
  "wildcard_free w \<Longrightarrow> like (w @ ''%'') s \<longleftrightarrow> prefix (lower w) (lower s)"
proof (induction w arbitrary: s)
  case Nil
  then show ?case by (simp add: like_percent lower_def)
next
  case (Cons ch w)
  then have free: "ch \<noteq> CHR ''%''" "ch \<noteq> CHR ''_''" "wildcard_free w"
    by (simp_all add: wildcard_free_def)
  show ?case
  proof (cases s)
    case Nil
    then show ?thesis using free by (simp add: lower_def)
  next
    case (Cons x xs)
    then show ?thesis
      using free Cons.IH [OF free(3), of xs] by (simp add: lower_def)
  qed
qed

lemma like_contains:
  "wildcard_free w \<Longrightarrow> like (CHR ''%'' # w @ ''%'') s \<longleftrightarrow> sublist (lower w) (lower s)"
proof (induction s)
  case Nil
  then show ?case
    using like_prefix [of w "[]"] by (simp add: lower_def)
next
  case (Cons x xs)
  then show ?case
    using like_prefix [of w "x # xs"]
    by (simp add: lower_def sublist_Cons_right)
qed

lemma name_like_iff:
  "wildcard_free w \<Longrightarrow> name_like w p = name_contains w p"
  by (simp add: name_like_def name_contains_def like_contains lower_idem)

lemma wildcard_free_subset:
  "wildcard_free s \<Longrightarrow> set t \<subseteq> insert CHR '' '' (set s) \<Longrightarrow> wildcard_free t"
  by (auto simp: wildcard_free_def list_all_iff)

lemma set_strip: "set (strip s) \<subseteq> set s"
proof -
  have "set (dropWhile is_space (rev (dropWhile is_space s))) \<subseteq> set s"
    using set_dropWhileD [of _ is_space "rev (dropWhile is_space s)"]
      set_dropWhileD [of _ is_space s]
    by auto
  then show ?thesis by (simp add: strip_def)
qed

lemma wildcard_free_lower: "wildcard_free s \<Longrightarrow> wildcard_free (lower s)"
  by (simp add: wildcard_free_def lower_def list_all_iff lower_char_wildcard)

lemma wildcard_free_q_raw: "wildcard_free qs \<Longrightarrow> wildcard_free (lower (strip qs))"
  using set_strip [of qs] wildcard_free_subset [of qs "strip qs"]
  by (auto intro!: wildcard_free_lower)

lemma set_replace_hyphen: "set (replace_hyphen s) \<subseteq> insert CHR '' '' (set s)"
  by (auto simp: replace_hyphen_def)

lemma split_from_chars:
  "w \<in> set (split_from cur s) \<Longrightarrow> set w \<subseteq> set cur \<union> set s"
proof (induction s arbitrary: cur)
  case Nil
  then show ?case by (auto split: if_splits)
next
  case (Cons ch s)
  show ?case
  proof (cases "is_space ch")
    case True
    then have "w = cur \<or> w \<in> set (split_from [] s)"
      using Cons.prems by (auto split: if_splits)
    then show ?thesis
      using Cons.IH [of "[]"] by auto
  next
    case False
    then have "w \<in> set (split_from (cur @ [ch]) s)"
      using Cons.prems by simp
    from Cons.IH [OF this] show ?thesis by auto
  qed
qed

lemma split_from_nonempty: "[] \<notin> set (split_from cur s)"
  by (induction s arbitrary: cur) auto

lemma fallback_words_eq:
  "[] \<notin> set ws \<Longrightarrow> fallback_words ws = map strip_plural ws"
  by (induction ws) (auto simp: strip_plural_def endswith_s_def)

lemma fallback_words_split:
  "fallback_words (split s) = map strip_plural (split s)"
  by (simp add: fallback_words_eq split_def split_from_nonempty)

lemma set_strip_plural: "set (strip_plural w) \<subseteq> set w"
  by (auto simp: strip_plural_def dest: in_set_butlastD)

lemma wildcard_free_words:
  assumes "wildcard_free q"
    and "w \<in> set (map strip_plural (split (replace_hyphen q)))"
  shows "wildcard_free w"
proof -
  from assms(2) obtain v where v: "v \<in> set (split (replace_hyphen q))"
    and w: "w = strip_plural v"
    by auto
  have "set v \<subseteq> set (replace_hyphen q)"
    using split_from_chars [of v "[]" "replace_hyphen q"] v by (simp add: split_def)
  then have "set w \<subseteq> insert CHR '' '' (set q)"
    using set_strip_plural [of v] set_replace_hyphen [of q] w by blast
  then show ?thesis
    using assms(1) by (rule wildcard_free_subset [rotated])
qed

lemma filter_name_like:
  "wildcard_free w \<Longrightarrow> filter (name_like w) ps = filter (name_contains w) ps"
  by (simp add: name_like_iff cong: filter_cong)

lemma filter_any_name_like:
  assumes "\<And>w. w \<in> set ws \<Longrightarrow> wildcard_free w"
  shows "filter (\<lambda>p. list_ex (\<lambda>w. name_like w p) ws) ps
         = filter (\<lambda>p. list_ex (\<lambda>w. name_contains w p) ws) ps"
proof -
  have "list_ex (\<lambda>w. name_like w p) ws = list_ex (\<lambda>w. name_contains w p) ws" for p
    using assms by (auto simp: list_ex_iff name_like_iff)
  then show ?thesis by simp
qed

lemma order_by_name_empty: "order_by_name rows = [] \<longleftrightarrow> rows = []"
  by (metis length_0_conv length_sort order_by_name_def)

lemma search_products_some:
  assumes "wildcard_free qs"
  shows "search_products d (Some qs) = (d, Inr (search_spec d (Some qs)))"
proof (cases "strip qs = []")
  case True
  then show ?thesis
    by (simp add: search_products_def search_products_try_def search_spec_def conn_defs)
next
  case False
  let ?q = "lower (strip qs)"
  let ?words = "map strip_plural (split (replace_hyphen ?q))"
  have q: "wildcard_free ?q"
    using assms by (rule wildcard_free_q_raw)
  have hits: "filter (name_like ?q) (products d) = filter (name_contains ?q) (products d)"
    using q by (rule filter_name_like)
  have words: "filter (\<lambda>p. list_ex (\<lambda>w. name_like w p) ?words) (products d)
         = filter (\<lambda>p. list_ex (\<lambda>w. name_contains w p) ?words) (products d)"
    using wildcard_free_words [OF q] by (rule filter_any_name_like)
  have none: "?words = [] \<Longrightarrow>
      filter (\<lambda>p. list_ex (\<lambda>w. name_contains w p) ?words) (products d) = []"
    by simp
  show ?thesis
  proof (cases "filter (name_contains ?q) (products d) = []")
    case True
    show ?thesis
    proof (cases "?words = []")
      case True
      with \<open>filter (name_contains ?q) (products d) = []\<close> False hits show ?thesis
        by (simp add: search_products_def search_products_try_def search_spec_def conn_defs
            Let_def fallback_words_split order_by_name_def)
    next
      case nonempty: False
      with True False hits words show ?thesis
        by (simp add: search_products_def search_products_try_def search_spec_def conn_defs
            Let_def fallback_words_split order_by_name_def)
    qed
  next
    case nonempty: False
    then have "order_by_name (filter (name_contains ?q) (products d)) \<noteq> []"
      by (simp add: order_by_name_empty)
    with nonempty False hits show ?thesis
      by (simp add: search_products_def search_products_try_def search_spec_def conn_defs
          Let_def)
  qed
qed

lemma sorted_search_spec: "sorted (map name (search_spec d query))"
  by (simp add: search_spec_def order_by_name_def Let_def split: option.splits)

lemma eq_char_of_iff: "c = char_of (n::nat) \<longleftrightarrow> of_char c = take_bit 8 n"
  using char_of_eq_iff [of n c] by auto

lemmas spec_defs = search_spec_def strip_def is_space_def lower_def lower_char_def
  name_contains_def order_by_name_def split_def replace_hyphen_def strip_plural_def
  sublist_Cons_right char_of_eq_iff eq_char_of_iff

text \<open>
  Claim C8, for queries without a LIKE wildcard. For every catalog: an absent or blank
  query returns the full catalog; a query that contains neither a percent sign nor an
  underscore returns the products whose name contains the trimmed query
  case-insensitively or, when there are none, the products whose name contains one of
  the query's words, hyphens being separators and every word longer than three
  characters that ends in s taken without that s; the result is ordered by name
  ascending in each case. The match is SQL's LIKE, so in a query with a percent sign or
  an underscore these characters stand for any run of characters and for any one
  character.
\<close>

theorem search_products_algorithm:
  "search_products d None = (d, Inr (search_spec d None)) \<and>
   (wildcard_free qs \<longrightarrow> search_products d (Some qs) = (d, Inr (search_spec d (Some qs)))) \<and>
   sorted (map name (search_spec d query))"
proof (intro conjI impI)
  show "search_products d None = (d, Inr (search_spec d None))"
    by (simp add: search_products_def search_products_try_def search_spec_def conn_defs)
next
  assume "wildcard_free qs"
  then show "search_products d (Some qs) = (d, Inr (search_spec d (Some qs)))"
    by (rule search_products_some)
next
  show "sorted (map name (search_spec d query))"
    by (rule sorted_search_spec)
qed

text \<open>Scenario F: no name contains cables, and the word cable finds both cables.\<close>

theorem search_products_algorithm_witness:
  "wildcard_free ''cables'' \<and>
   search_spec shop (Some ''cables'') = [ethernet_cable, usb_cable] \<and>
   search_products shop (Some ''cables'') = (shop, Inr [ethernet_cable, usb_cable])"
proof -
  have free: "wildcard_free ''cables''"
    by (simp add: wildcard_free_def)
  have spec: "search_spec shop (Some ''cables'') = [ethernet_cable, usb_cable]"
    by (simp add: spec_defs shop_defs)
  show ?thesis
    using search_products_algorithm [of shop "''cables''"] free spec by simp
qed

text \<open>
  As worded for every query, the claim fails: no product name contains \<^verbatim>\<open>c_b\<close>, so the
  algorithm of the specification returns nothing, while LIKE matches the underscore
  with the letter a of Cable and the tool returns both cables.
\<close>

theorem search_like_wildcard_counterexample:
  "snd (search_products shop (Some ''c_b'')) = Inr [ethernet_cable, usb_cable] \<and>
   search_spec shop (Some ''c_b'') = [] \<and>
   snd (search_products shop (Some ''c_b'')) \<noteq> Inr (search_spec shop (Some ''c_b''))"
proof -
  have code: "snd (search_products shop (Some ''c_b'')) = Inr [ethernet_cable, usb_cable]"
    by code_simp
  have spec: "search_spec shop (Some ''c_b'') = []"
    by (simp add: spec_defs shop_defs)
  show ?thesis
    by (simp add: code spec)
qed

end
